theory Spec2Isabelle
  imports Main "HOL-Library.Sublist" "HOL-Library.AList"
begin

section \<open>Python values used by bloggg.py\<close>

text \<open>
  Exceptions the program can raise are values of \<open>error\<close>; a fallible operation returns
  \<open>error + 'a\<close> with \<open>Inl\<close> for the raised exception. An \<open>AssertionError\<close> carries the
  message of the failed \<^verbatim>\<open>assert\<close>.
\<close>

datatype error =
    ValueError
  | AttributeError
  | TypeError
  | AssertionError string
  | FileNotFoundError
  | IsADirectoryError
  | NotADirectoryError
  | FileExistsError
  | SameFileError
  | YAMLError

definition bind_result :: "error + 'a \<Rightarrow> ('a \<Rightarrow> error + 'b) \<Rightarrow> error + 'b" where
  "bind_result r f = (case r of Inl e \<Rightarrow> Inl e | Inr x \<Rightarrow> f x)"

subsection \<open>Strings\<close>

text \<open>\<^verbatim>\<open>sep.join(xs)\<close>.\<close>

fun join :: "string \<Rightarrow> string list \<Rightarrow> string" where
  "join sep [] = []"
| "join sep [x] = x"
| "join sep (x # y # ys) = x @ sep @ join sep (y # ys)"

text \<open>\<^verbatim>\<open>s.startswith(p)\<close>.\<close>

definition startswith :: "string \<Rightarrow> string \<Rightarrow> bool" where
  "startswith s p = (take (length p) s = p)"

text \<open>\<^verbatim>\<open>s.split(c)\<close> for a one-character separator: the fields between the separators,
  empty fields included.\<close>

fun split_on :: "char \<Rightarrow> string \<Rightarrow> string list" where
  "split_on c [] = [[]]"
| "split_on c (x # xs) =
     (if x = c then [] # split_on c xs
      else (case split_on c xs of [] \<Rightarrow> [[x]] | f # fs \<Rightarrow> (x # f) # fs))"

text \<open>\<^verbatim>\<open>s.rfind(c)\<close> for a character: the highest index of \<open>c\<close>, or \<open>-1\<close>.\<close>

definition rfind_char :: "string \<Rightarrow> char \<Rightarrow> int" where
  "rfind_char s c =
     (if c \<in> set s then int (length s) - 1 - int (length (takeWhile (\<lambda>x. x \<noteq> c) (rev s)))
      else - 1)"

section \<open>pathlib paths (POSIX flavour)\<close>

text \<open>
  A \<^verbatim>\<open>pathlib.Path\<close> is its parsed form: the anchor (\<open>''''\<close> for a relative path,
  \<open>''/''\<close> or \<open>''//''\<close> for an absolute one) and the components below it. Two paths are
  equal when both agree, which is record equality. \<^verbatim>\<open>Path('.')\<close> has no anchor and no
  component. The operations follow \<^verbatim>\<open>pathlib\<close> of CPython 3.11 and 3.12.
\<close>

record path =
  anchor :: string
  tail :: "string list"

definition parts :: "path \<Rightarrow> string list" where
  "parts p = (if anchor p = [] then [] else [anchor p]) @ tail p"

definition name :: "path \<Rightarrow> string" where
  "name p = (if tail p = [] then [] else last (tail p))"

definition parent :: "path \<Rightarrow> path" where
  "parent p = (if tail p = [] then p else p\<lparr>tail := butlast (tail p)\<rparr>)"

text \<open>\<^verbatim>\<open>Path(name).suffix\<close>: the text from the last dot on, when that dot is neither the
  first nor the last character of the name.\<close>

definition suffix_of :: "string \<Rightarrow> string" where
  "suffix_of nm =
     (let i = rfind_char nm (CHR ''.'')
      in if 0 < i \<and> i < int (length nm) - 1 then drop (nat i) nm else [])"

definition suffix_path :: "path \<Rightarrow> string" where
  "suffix_path p = suffix_of (name p)"

text \<open>\<^verbatim>\<open>p.with_suffix(s)\<close> raises \<open>ValueError\<close> for an invalid suffix and for a path with
  an empty name.\<close>

definition with_suffix :: "path \<Rightarrow> string \<Rightarrow> error + path" where
  "with_suffix p sfx =
     (if CHR ''/'' \<in> set sfx then Inl ValueError
      else if (sfx \<noteq> [] \<and> \<not> startswith sfx ''.'') \<or> sfx = ''.'' then Inl ValueError
      else if name p = [] then Inl ValueError
      else
        let old_suffix = suffix_path p;
            nm = (if old_suffix = [] then name p @ sfx
                  else take (length (name p) - length old_suffix) (name p) @ sfx)
        in Inr (p\<lparr>tail := butlast (tail p) @ [nm]\<rparr>))"

text \<open>\<^verbatim>\<open>Path(s)\<close>: a leading slash gives the anchor (exactly two slashes give
  \<open>''//''\<close>), and the empty and \<open>''.''\<close> components are dropped.\<close>

definition parse_path :: "string \<Rightarrow> path" where
  "parse_path s =
     \<lparr>anchor = (if startswith s ''//'' \<and> \<not> startswith s ''///'' then ''//''
                else if startswith s ''/'' then ''/'' else []),
      tail = filter (\<lambda>x. x \<noteq> [] \<and> x \<noteq> ''.'') (split_on (CHR ''/'') s)\<rparr>"

text \<open>\<^verbatim>\<open>p / s\<close>: an absolute \<open>s\<close> replaces \<open>p\<close>.\<close>

definition joinpath :: "path \<Rightarrow> string \<Rightarrow> path" where
  "joinpath p s =
     (let q = parse_path s
      in if anchor q \<noteq> [] then q else p\<lparr>tail := tail p @ tail q\<rparr>)"

text \<open>\<^verbatim>\<open>p / q\<close> for a path \<open>q\<close>.\<close>

definition joinpath_path :: "path \<Rightarrow> path \<Rightarrow> path" where
  "joinpath_path p q = (if anchor q \<noteq> [] then q else p\<lparr>tail := tail p @ tail q\<rparr>)"

text \<open>\<open>q\<close> is \<open>p\<close> or one of \<^verbatim>\<open>p.parents\<close>.\<close>

definition is_relative_to :: "path \<Rightarrow> path \<Rightarrow> bool" where
  "is_relative_to p q = (anchor p = anchor q \<and> prefix (tail q) (tail p))"

text \<open>\<^verbatim>\<open>p.relative_to(q)\<close>.\<close>

definition relative_to :: "path \<Rightarrow> path \<Rightarrow> error + path" where
  "relative_to p q =
     (if is_relative_to p q then Inr \<lparr>anchor = [], tail = drop (length (tail q)) (tail p)\<rparr>
      else Inl ValueError)"

text \<open>\<^verbatim>\<open>str(p)\<close>.\<close>

definition path_str :: "path \<Rightarrow> string" where
  "path_str p =
     (if anchor p = [] \<and> tail p = [] then ''.'' else anchor p @ join ''/'' (tail p))"

section \<open>Breadcrumb generator\<close>

text \<open>
  The \<^verbatim>\<open>while file_dir != input_root\<close> loop of \<^verbatim>\<open>gen_breadcrumbs_html\<close>. It may run
  forever, so it is a partial function: \<open>None\<close> is the loop that never exits.
\<close>

partial_function (option) walk_up :: "path \<Rightarrow> path \<Rightarrow> path list \<Rightarrow> path list option" where
  "walk_up file_dir input_root breadcrumbs =
     (if file_dir \<noteq> input_root
      then walk_up (parent file_dir) input_root (breadcrumbs @ [file_dir])
      else Some breadcrumbs)"

declare walk_up.simps [code]

text \<open>Lines 49 to 61: the crumbs collected for a file, the input root last.\<close>

definition collect_breadcrumbs :: "path \<Rightarrow> path \<Rightarrow> (error + path list) option" where
  "collect_breadcrumbs file_dir input_root =
     (case with_suffix file_dir [] of
        Inl e \<Rightarrow> Some (Inl e)
      | Inr fd \<Rightarrow>
          (case walk_up (if name fd = ''index'' then parent fd else fd) input_root [] of
             None \<Rightarrow> None
           | Some breadcrumbs \<Rightarrow> Some (Inr (breadcrumbs @ [input_root]))))"

text \<open>The label and the link of the \<open>i\<close>-th crumb of \<open>n\<close>, counted root first.\<close>

definition crumb_label :: "nat \<times> path \<Rightarrow> string" where
  "crumb_label ic = (if fst ic = 0 then ''root'' else name (snd ic))"

text \<open>The labels of the crumbs as rendered, root first.\<close>

definition crumb_labels :: "path list \<Rightarrow> string list" where
  "crumb_labels breadcrumbs = map crumb_label (enumerate 0 (rev breadcrumbs))"

definition crumb_href :: "nat \<Rightarrow> nat \<Rightarrow> string" where
  "crumb_href n i = join ''/'' (replicate (n - 1 - i) ''..'')"

definition crumb_html :: "nat \<Rightarrow> nat \<times> path \<Rightarrow> string" where
  \<open>crumb_html n ic =
     (if fst ic \<noteq> 0 then '' / '' else [])
     @ ''<a href="'' @ crumb_href n (fst ic) @ ''">'' @ crumb_label ic @ ''</a>''\<close>

text \<open>Lines 63 to 75: the markup for the collected crumbs.\<close>

definition breadcrumbs_html :: "path list \<Rightarrow> string" where
  \<open>breadcrumbs_html breadcrumbs =
     (if length breadcrumbs = 1 then []
      else ''<nav class="breadcrumbs">''
           @ concat (map (crumb_html (length breadcrumbs)) (enumerate 0 (rev breadcrumbs)))
           @ ''</nav>'')\<close>

definition gen_breadcrumbs_html :: "path \<Rightarrow> path \<Rightarrow> (error + string) option" where
  "gen_breadcrumbs_html file_dir input_root =
     map_option (map_sum id breadcrumbs_html) (collect_breadcrumbs file_dir input_root)"

section \<open>Frontmatter parser\<close>

text \<open>
  What \<^verbatim>\<open>yaml.safe_load\<close> returns: \<open>YNull\<close> is Python's \<^verbatim>\<open>None\<close>, \<open>YStr\<close> a string,
  \<open>YMap\<close> a mapping with its string keys in order, and \<open>YOther\<close> any other value (a number,
  a boolean, a date, a sequence), kept as the text \<^verbatim>\<open>str()\<close> gives for it.
\<close>

datatype yaml =
    YNull
  | YStr string
  | YOther string
  | YMap "(string \<times> yaml) list"

text \<open>\<^verbatim>\<open>s[a:b]\<close> and \<^verbatim>\<open>s[a:]\<close>: an index below zero counts from the end, and both are
  clamped to the string.\<close>

definition clamp_index :: "string \<Rightarrow> int \<Rightarrow> nat" where
  "clamp_index s i =
     (if i < 0 then nat (max 0 (i + int (length s))) else min (nat i) (length s))"

definition slice :: "string \<Rightarrow> int \<Rightarrow> int \<Rightarrow> string" where
  "slice s a b = take (clamp_index s b - clamp_index s a) (drop (clamp_index s a) s)"

definition slice_from :: "string \<Rightarrow> int \<Rightarrow> string" where
  "slice_from s a = drop (clamp_index s a) s"

text \<open>\<^verbatim>\<open>s.find(sub, start)\<close>: the lowest index at or after \<open>start\<close> where \<open>sub\<close> occurs, or
  \<open>-1\<close>. \<open>find_at i sub t\<close> searches the rest \<open>t\<close> of the string, which begins at index \<open>i\<close>.\<close>

fun find_at :: "nat \<Rightarrow> string \<Rightarrow> string \<Rightarrow> int" where
  "find_at i sub [] = (if sub = [] then int i else - 1)"
| "find_at i sub (c # cs) = (if prefix sub (c # cs) then int i else find_at (Suc i) sub cs)"

definition find_str :: "string \<Rightarrow> string \<Rightarrow> int \<Rightarrow> int" where
  "find_str s sub start =
     (let st = (if start < 0 then max 0 (start + int (length s)) else start)
      in if st > int (length s) then - 1 else find_at (nat st) sub (drop (nat st) s))"

text \<open>\<^verbatim>\<open>parse_frontmatter\<close>, with \<^verbatim>\<open>yaml.safe_load\<close> as the parameter \<open>safe_load\<close>. The
  first component of the result is \<open>YNull\<close> where the source returns \<^verbatim>\<open>None\<close>.\<close>

definition parse_frontmatter ::
  "(string \<Rightarrow> error + yaml) \<Rightarrow> string \<Rightarrow> error + (yaml \<times> string)" where
  "parse_frontmatter safe_load markdown =
     (let start = find_str markdown ''---'' 0;
          end' = find_str markdown ''---'' (start + 3)
      in if start \<noteq> - 1 \<and> end' \<noteq> - 1
         then bind_result (safe_load (slice markdown (start + 3) end'))
                (\<lambda>frontmatter. Inr (frontmatter, slice_from markdown (end' + 3)))
         else Inr (YNull, markdown))"

section \<open>Asset path rewriter\<close>

text \<open>
  A match of the pattern \<^verbatim>\<open>(href|src)="([^"]+)"\<close>: the two groups, and where the second
  group starts and ends in the searched string.
\<close>

type_synonym rmatch = "string \<times> string \<times> nat \<times> nat"

text \<open>A match that begins at the head of \<open>s\<close>: the attribute name, \<^verbatim>\<open>="\<close>, the longest
  non-empty run without a double quote, and a double quote. The result is the two groups
  and the length of what precedes the second.\<close>

definition match_attr :: "string \<Rightarrow> string \<Rightarrow> (string \<times> string \<times> nat) option" where
  \<open>match_attr attr s =
     (let rest = drop (length attr + 2) s;
          val = takeWhile (\<lambda>c. c \<noteq> CHR 0x22) rest
      in if startswith s (attr @ ''="'') \<and> val \<noteq> [] \<and> length val < length rest
         then Some (attr, val, length attr + 2) else None)\<close>

definition match_here :: "string \<Rightarrow> (string \<times> string \<times> nat) option" where
  "match_here s =
     (case match_attr ''href'' s of Some m \<Rightarrow> Some m | None \<Rightarrow> match_attr ''src'' s)"

text \<open>\<^verbatim>\<open>re.finditer\<close> on the rest \<open>s\<close> of the string, which begins at index \<open>i\<close>: the
  matches from left to right, each search resuming where the last match ended.\<close>

function finditer_from :: "nat \<Rightarrow> string \<Rightarrow> rmatch list" where
  "finditer_from i s =
     (if s = [] then []
      else (case match_here s of
              None \<Rightarrow> finditer_from (Suc i) (tl s)
            | Some (attr, val, off) \<Rightarrow>
                (attr, val, i + off, i + off + length val)
                # finditer_from (i + off + length val + 1) (drop (off + length val + 1) s)))"
  by pat_completeness auto
termination
  by (relation "measure (\<lambda>(i, s). length s)") auto

definition finditer :: "string \<Rightarrow> rmatch list" where
  "finditer s = finditer_from 0 s"

text \<open>\<^verbatim>\<open>'../' * len(markdown_file.parts[:-2]) + '_templates'\<close>.\<close>

definition markdown_to_root :: "path \<Rightarrow> string" where
  "markdown_to_root markdown_file =
     concat (replicate (length (take (length (parts markdown_file) - 2) (parts markdown_file)))
               ''../'')
     @ ''_templates''"

text \<open>One turn of the loop of \<^verbatim>\<open>patch_referenced_files\<close>, on the current
  \<^verbatim>\<open>final_html\<close> and the lines printed so far.\<close>

definition patch_match :: "path \<Rightarrow> string \<times> string list \<Rightarrow> rmatch \<Rightarrow> string \<times> string list" where
  "patch_match markdown_file st m =
     (case m of (attr, file, start2, end2) \<Rightarrow>
        if \<not> startswith file ''http'' \<and> \<not> startswith file ''#''
        then let asset_path = markdown_to_root markdown_file @ ''/'' @ file
             in (take start2 (fst st) @ asset_path @ drop end2 (fst st),
                 snd st @ ['' - asset '' @ asset_path])
        else st)"

text \<open>\<^verbatim>\<open>patch_referenced_files\<close>: the matches are those of the string passed in, and each
  replacement is made in the string as rewritten so far. The result is the final string
  and the lines printed.\<close>

definition patch_referenced_files :: "string \<Rightarrow> path \<Rightarrow> path \<Rightarrow> string \<times> string list" where
  "patch_referenced_files final_html template_file markdown_file =
     foldl (patch_match markdown_file) (final_html, []) (finditer final_html)"

section \<open>Page renderer\<close>

subsection \<open>String and dictionary operations\<close>

text \<open>\<^verbatim>\<open>s.strip()\<close>: the characters Python counts as white space are removed at both
  ends. A \<open>char\<close> is a code point below 256; among these the white space is the ASCII
  white space, the next-line character \<^verbatim>\<open>0x85\<close> and the no-break space \<^verbatim>\<open>0xA0\<close>.\<close>

definition is_space :: "char \<Rightarrow> bool" where
  "is_space c =
     (c \<in> set [CHR 0x09, CHR 0x0A, CHR 0x0B, CHR 0x0C, CHR 0x0D,
                CHR 0x1C, CHR 0x1D, CHR 0x1E, CHR 0x1F, CHR 0x20,
                CHR 0x85, CHR 0xA0])"

definition strip :: "string \<Rightarrow> string" where
  "strip s = rev (dropWhile is_space (rev (dropWhile is_space s)))"

text \<open>\<^verbatim>\<open>s.replace(old, new)\<close>: every occurrence of \<open>old\<close>, found from left to right without
  overlap.\<close>

function replace_nonempty :: "string \<Rightarrow> string \<Rightarrow> string \<Rightarrow> string" where
  "replace_nonempty s old new =
     (if s = [] \<or> old = [] then s
      else if prefix old s then new @ replace_nonempty (drop (length old) s) old new
      else hd s # replace_nonempty (tl s) old new)"
  by pat_completeness auto
termination
  by (relation "measure (\<lambda>(s, old, new). length s)") auto

definition replace :: "string \<Rightarrow> string \<Rightarrow> string \<Rightarrow> string" where
  "replace s old new =
     (if old = [] then new @ concat (map (\<lambda>c. c # new) s) else replace_nonempty s old new)"

text \<open>\<^verbatim>\<open>d.get(key, dflt)\<close>: only a mapping has the method.\<close>

definition dict_get :: "yaml \<Rightarrow> string \<Rightarrow> yaml \<Rightarrow> error + yaml" where
  "dict_get d key dflt =
     (case d of
        YMap m \<Rightarrow> Inr (case map_of m key of None \<Rightarrow> dflt | Some v \<Rightarrow> v)
      | _ \<Rightarrow> Inl AttributeError)"

text \<open>\<^verbatim>\<open>v.strip()\<close> on a loaded value: only a string has the method.\<close>

definition value_strip :: "yaml \<Rightarrow> error + string" where
  "value_strip v = (case v of YStr s \<Rightarrow> Inr (strip s) | _ \<Rightarrow> Inl AttributeError)"

text \<open>\<^verbatim>\<open>template.replace(old, v)\<close> with a loaded value: the replacement must be a string.\<close>

definition replace_value :: "string \<Rightarrow> string \<Rightarrow> yaml \<Rightarrow> error + string" where
  "replace_value template old v =
     (case v of YStr s \<Rightarrow> Inr (replace template old s) | _ \<Rightarrow> Inl TypeError)"

text \<open>The libraries the renderer calls: \<^verbatim>\<open>yaml.safe_load\<close>, \<^verbatim>\<open>mistletoe.markdown\<close>, and
  what \<^verbatim>\<open>str()\<close> gives for a loaded mapping.\<close>

record externals =
  safe_load :: "string \<Rightarrow> error + yaml"
  markdown :: "string \<Rightarrow> string"
  dict_str :: "(string \<times> yaml) list \<Rightarrow> string"

definition value_str :: "externals \<Rightarrow> yaml \<Rightarrow> string" where
  "value_str env v =
     (case v of YNull \<Rightarrow> ''None'' | YStr s \<Rightarrow> s | YOther s \<Rightarrow> s | YMap m \<Rightarrow> dict_str env m)"

subsection \<open>The file system and the standard output\<close>

text \<open>
  The state the program reads and writes: the regular files with their text, in the
  order a directory listing gives them, the directories, and the lines printed. A path
  without components (\<^verbatim>\<open>Path('.')\<close>, \<^verbatim>\<open>Path('/')\<close>) is always a directory. A file is
  identified with its path: links and \<^verbatim>\<open>..\<close> components are not resolved.
\<close>

record world =
  files :: "(path \<times> string) list"
  dirs :: "path list"
  stdout :: "string list"

definition is_file :: "world \<Rightarrow> path \<Rightarrow> bool" where
  "is_file w p = (map_of (files w) p \<noteq> None)"

definition is_dir :: "world \<Rightarrow> path \<Rightarrow> bool" where
  "is_dir w p = (tail p = [] \<or> p \<in> set (dirs w))"

definition exists :: "world \<Rightarrow> path \<Rightarrow> bool" where
  "exists w p = (is_dir w p \<or> is_file w p)"

definition print :: "string \<Rightarrow> world \<Rightarrow> world" where
  "print line w = w\<lparr>stdout := stdout w @ [line]\<rparr>"

text \<open>\<^verbatim>\<open>open(p, 'r')\<close> followed by \<^verbatim>\<open>read()\<close>.\<close>

definition read_text :: "world \<Rightarrow> path \<Rightarrow> error + string" where
  "read_text w p =
     (if is_dir w p then Inl IsADirectoryError
      else (case map_of (files w) p of None \<Rightarrow> Inl FileNotFoundError | Some c \<Rightarrow> Inr c))"

text \<open>\<^verbatim>\<open>open(p, 'w')\<close> followed by \<^verbatim>\<open>write(c)\<close>.\<close>

definition write_text :: "path \<Rightarrow> string \<Rightarrow> world \<Rightarrow> error + world" where
  "write_text p c w =
     (if is_dir w p then Inl IsADirectoryError
      else if is_file w (parent p) then Inl NotADirectoryError
      else if \<not> is_dir w (parent p) then Inl FileNotFoundError
      else Inr (w\<lparr>files := AList.update p c (files w)\<rparr>))"

text \<open>\<^verbatim>\<open>p.mkdir(parents=True, exist_ok=True)\<close>.\<close>

function mkdir :: "path \<Rightarrow> world \<Rightarrow> error + world" where
  "mkdir p w =
     (if is_dir w p then Inr w
      else if is_file w p then Inl FileExistsError
      else if is_file w (parent p) then Inl NotADirectoryError
      else bind_result (mkdir (parent p) w) (\<lambda>w'. Inr (w'\<lparr>dirs := dirs w' @ [p]\<rparr>)))"
  by pat_completeness auto
termination
  by (relation "measure (\<lambda>(p, w). length (tail p))") (auto simp: is_dir_def parent_def)

text \<open>\<^verbatim>\<open>shutil.copy(src, dst)\<close>: into \<open>dst\<close> when it is a directory.\<close>

definition copy :: "path \<Rightarrow> path \<Rightarrow> world \<Rightarrow> error + world" where
  "copy src dst w =
     (let dst' = (if is_dir w dst then joinpath dst (name src) else dst)
      in if exists w src \<and> src = dst' then Inl SameFileError
         else bind_result (read_text w src) (\<lambda>c. write_text dst' c w))"

text \<open>
  What \<^verbatim>\<open>os.walk\<close> reads when it scans the directory \<open>topdir\<close>: the directories directly
  in it, and the names of the files directly in it, each in the order of the listing.
\<close>

definition scan_dirs :: "world \<Rightarrow> path \<Rightarrow> path list" where
  "scan_dirs w topdir = filter (\<lambda>d. tail d \<noteq> [] \<and> parent d = topdir) (dirs w)"

definition scan_files :: "world \<Rightarrow> path \<Rightarrow> string list" where
  "scan_files w topdir =
     map name (filter (\<lambda>f. tail f \<noteq> [] \<and> parent f = topdir) (map fst (files w)))"

text \<open>
  \<^verbatim>\<open>os.walk(top)\<close> run to its end in one state. The walk is top-down and depth first: a
  directory with the names of its files, then the walk of each of its directories in
  turn. The recursion ends because a directory has fewer directories below it than the
  directory it lies in.
\<close>

function os_walk_from :: "world \<Rightarrow> path \<Rightarrow> (path \<times> string list) list" where
  "os_walk_from w topdir =
     (topdir, scan_files w topdir) # concat (map (os_walk_from w) (scan_dirs w topdir))"
  by pat_completeness auto
termination
proof (relation "measure (\<lambda>(w, p). length (filter (\<lambda>x. is_relative_to x p \<and> x \<noteq> p) (dirs w)))")
  show "wf (measure (\<lambda>(w, p). length (filter (\<lambda>x. is_relative_to x p \<and> x \<noteq> p) (dirs w))))"
    by (rule wf_measure)
next
  fix w :: world and topdir d :: path
  assume "d \<in> set (scan_dirs w topdir)"
  then have d: "d \<in> set (dirs w)" and ne: "tail d \<noteq> []" and par: "parent d = topdir"
    by (auto simp: scan_dirs_def)
  from ne have snoc: "tail d = tail topdir @ [last (tail d)]" and a: "anchor topdir = anchor d"
    using par by (auto simp: parent_def)
  let ?in_d = "\<lambda>x. is_relative_to x d \<and> x \<noteq> d"
  let ?below = "filter (\<lambda>x. is_relative_to x topdir \<and> x \<noteq> topdir) (dirs w)"
  have sub: "is_relative_to x topdir \<and> x \<noteq> topdir" if "is_relative_to x d" for x
  proof -
    from that obtain ys where "tail x = tail d @ ys" and "anchor x = anchor d"
      by (auto simp: is_relative_to_def prefix_def)
    with snoc a have "tail x = tail topdir @ (last (tail d) # ys)" and "anchor x = anchor topdir"
      by simp_all
    then show ?thesis by (auto simp: is_relative_to_def)
  qed
  have "is_relative_to d d" by (simp add: is_relative_to_def)
  with sub d have "d \<in> set ?below" by simp
  then have "length (filter ?in_d ?below) < length ?below"
    by (rule length_filter_less) simp
  moreover have "filter ?in_d ?below = filter ?in_d (dirs w)"
    using sub by (auto intro: filter_cong)
  ultimately show "((w, d), (w, topdir))
      \<in> measure (\<lambda>(w, p). length (filter (\<lambda>x. is_relative_to x p \<and> x \<noteq> p) (dirs w)))"
    by simp
qed

declare os_walk_from.simps [simp del]

text \<open>Nothing is walked when \<open>topdir\<close> is not a directory: the error of the scan is
  dropped.\<close>

definition os_walk :: "world \<Rightarrow> path \<Rightarrow> (path \<times> string list) list" where
  "os_walk w topdir = (if \<not> is_dir w topdir then [] else os_walk_from w topdir)"

text \<open>Lines 25 to 27: the files of one directory that \<^verbatim>\<open>walk_dir\<close> yields.\<close>

definition yield_files :: "path \<Rightarrow> string list \<Rightarrow> string list \<Rightarrow> path list" where
  "yield_files root fs extensions =
     map (joinpath root) (filter (\<lambda>file. suffix_path (parse_path file) \<in> set extensions) fs)"

text \<open>\<^verbatim>\<open>walk_dir\<close> run to its end in one state: all the files it yields, in order.\<close>

definition walk_dir :: "world \<Rightarrow> path \<Rightarrow> string list \<Rightarrow> path list" where
  "walk_dir w dir extensions =
     concat (map (\<lambda>(root, fs). yield_files root fs extensions) (os_walk w dir))"

subsection \<open>Running a statement that may fail\<close>

text \<open>
  The outcome of a run: \<open>None\<close> when it never ends, otherwise the exception that ended
  it, if any, and the state it left.
\<close>

type_synonym outcome = "(error option \<times> world) option"

definition attempt :: "world \<Rightarrow> error + world \<Rightarrow> outcome" where
  "attempt w r = (case r of Inl e \<Rightarrow> Some (Some e, w) | Inr w' \<Rightarrow> Some (None, w'))"

definition and_then :: "outcome \<Rightarrow> (world \<Rightarrow> outcome) \<Rightarrow> outcome" where
  "and_then r f =
     (case r of
        None \<Rightarrow> None
      | Some (Some e, w) \<Rightarrow> Some (Some e, w)
      | Some (None, w) \<Rightarrow> f w)"

text \<open>A \<^verbatim>\<open>for\<close> loop over a list: an exception in the body ends it.\<close>

fun for_each :: "('a \<Rightarrow> world \<Rightarrow> outcome) \<Rightarrow> 'a list \<Rightarrow> world \<Rightarrow> outcome" where
  "for_each body [] w = Some (None, w)"
| "for_each body (x # xs) w = and_then (body x w) (for_each body xs)"

text \<open>
  A \<^verbatim>\<open>for\<close> loop over the generator \<^verbatim>\<open>walk_dir(dir, extensions)\<close>. The generator runs
  between the turns of the loop, so a directory is scanned in the state the loop has
  reached when the walk comes to it: \<open>pending\<close> are the directories still to be walked, the
  next one first. The files of the scanned directory are handed to the body one by one,
  and then its directories, as the scan found them, are walked before the rest. A
  directory that cannot be scanned is passed over. The loop is a partial function, \<open>None\<close>
  when it does not end: the body may add to the tree that is walked.
\<close>

partial_function (option) for_walk_dir ::
  "(path \<Rightarrow> world \<Rightarrow> outcome) \<Rightarrow> string list \<Rightarrow> path list \<Rightarrow> world
   \<Rightarrow> (error option \<times> world) option" where
  "for_walk_dir body extensions pending w =
     (case pending of
        [] \<Rightarrow> Some (None, w)
      | topdir # rest \<Rightarrow>
          if \<not> is_dir w topdir then for_walk_dir body extensions rest w
          else (case for_each body (yield_files topdir (scan_files w topdir) extensions) w of
                  None \<Rightarrow> None
                | Some (Some e, w') \<Rightarrow> Some (Some e, w')
                | Some (None, w') \<Rightarrow>
                    for_walk_dir body extensions (scan_dirs w topdir @ rest) w'))"

declare for_walk_dir.simps [code]

subsection \<open>\<^verbatim>\<open>process_markdown\<close>\<close>

text \<open>\<^verbatim>\<open>key in d\<close>; the renderer reaches it with a mapping only.\<close>

definition dict_contains :: "yaml \<Rightarrow> string \<Rightarrow> error + bool" where
  "dict_contains d key =
     (case d of YMap m \<Rightarrow> Inr (map_of m key \<noteq> None) | _ \<Rightarrow> Inl TypeError)"

text \<open>\<^verbatim>\<open>output_root / file.relative_to(input_root).with_suffix('.html')\<close>.\<close>

definition output_path :: "path \<Rightarrow> path \<Rightarrow> path \<Rightarrow> error + path" where
  "output_path file input_root output_root =
     bind_result (relative_to file input_root)
       (\<lambda>rel. bind_result (with_suffix rel ''.html'')
          (\<lambda>rel_html. Inr (joinpath_path output_root rel_html)))"

text \<open>Line 88: the template name of a parsed frontmatter.\<close>

definition template_name_of :: "yaml \<Rightarrow> error + string" where
  "template_name_of frontmatter =
     bind_result (dict_get frontmatter ''template'' (YStr ''default'')) value_strip"

text \<open>Line 89: the template file of a template name.\<close>

definition template_file_of :: "path \<Rightarrow> string \<Rightarrow> path" where
  "template_file_of input_root template_name =
     joinpath (joinpath input_root ''_templates'') (template_name @ ''.html'')"

text \<open>Lines 98 to 106: the template with its four placeholders replaced. \<open>None\<close> when the
  breadcrumb loop does not end.\<close>

definition substitute ::
  "externals \<Rightarrow> yaml \<Rightarrow> string \<Rightarrow> path \<Rightarrow> path \<Rightarrow> string \<Rightarrow> (error + string) option" where
  "substitute env frontmatter content file input_root template =
     (let content_html = markdown env content
      in case bind_result (dict_get frontmatter ''title'' (YStr []))
                (replace_value template ''$$DOC_TITLE$$'') of
           Inl e \<Rightarrow> Some (Inl e)
         | Inr template1 \<Rightarrow>
             (case bind_result (dict_contains frontmatter ''date'')
                     (\<lambda>dated.
                        if dated
                        then bind_result (dict_get frontmatter ''date'' YNull)
                               (\<lambda>d. Inr (replace template1 ''$$DOC_DATE$$''
                                            (''Written '' @ value_str env d)))
                        else Inr (replace template1 ''$$DOC_DATE$$'' [])) of
                Inl e \<Rightarrow> Some (Inl e)
              | Inr template2 \<Rightarrow>
                  (let template3 = replace template2 ''$$DOC_CONTENT$$'' content_html
                   in case gen_breadcrumbs_html file input_root of
                        None \<Rightarrow> None
                      | Some (Inl e) \<Rightarrow> Some (Inl e)
                      | Some (Inr crumbs) \<Rightarrow>
                          Some (Inr (replace template3 ''$$BREADCRUMBS$$'' crumbs)))))"

text \<open>Lines 109 to 112: the page is written below the output root.\<close>

definition write_page :: "path \<Rightarrow> path \<Rightarrow> path \<Rightarrow> string \<Rightarrow> world \<Rightarrow> outcome" where
  "write_page file input_root output_root page w =
     (case output_path file input_root output_root of
        Inl e \<Rightarrow> Some (Some e, w)
      | Inr output_file \<Rightarrow>
          and_then (attempt w (mkdir (parent output_file) w))
            (\<lambda>w'. attempt w' (write_text output_file page w')))"

text \<open>
  \<^verbatim>\<open>process_markdown\<close>. The test \<^verbatim>\<open>file.is_file()\<close> of line 79 sets a variable that is
  never read, and is left out. The document is read where it is opened, and the
  \<^verbatim>\<open>assert\<close> is executed, as Python does unless it is started with \<^verbatim>\<open>-O\<close>.
\<close>

definition process_markdown :: "externals \<Rightarrow> path \<Rightarrow> path \<Rightarrow> path \<Rightarrow> world \<Rightarrow> outcome" where
  "process_markdown env file input_root output_root w =
     (case read_text w file of
        Inl e \<Rightarrow> Some (Some e, w)
      | Inr content \<Rightarrow>
     (case output_path file input_root output_root of
        Inl e \<Rightarrow> Some (Some e, w)
      | Inr output_file \<Rightarrow>
     (let w1 = print (''processing '' @ path_str file @ '' -> '' @ path_str output_file) w
      in case parse_frontmatter (safe_load env) content of
        Inl e \<Rightarrow> Some (Some e, w1)
      | Inr (frontmatter, body) \<Rightarrow>
     (case template_name_of frontmatter of
        Inl e \<Rightarrow> Some (Some e, w1)
      | Inr template_name \<Rightarrow>
     (let template_file = template_file_of input_root template_name
      in if \<not> exists w1 template_file
         then Some (Some (AssertionError
                            (''template '' @ path_str template_file @ '' does not exist'')), w1)
         else
     (case read_text w1 template_file of
        Inl e \<Rightarrow> Some (Some e, w1)
      | Inr template \<Rightarrow>
     (let patched = patch_referenced_files template template_file file;
          w2 = foldl (\<lambda>w' line. print line w') w1 (snd patched)
      in case substitute env frontmatter body file input_root (fst patched) of
        None \<Rightarrow> None
      | Some (Inl e) \<Rightarrow> Some (Some e, w2)
      | Some (Inr page) \<Rightarrow> write_page file input_root output_root page w2)))))))"

section \<open>Site walker\<close>

definition DIRECT_COPY_EXTENSIONS :: "string list" where
  "DIRECT_COPY_EXTENSIONS = [''.html'', ''.css'', ''.js'', ''.png'', ''.jpg'', ''.svg'']"

text \<open>The body of the first and of the second loop of \<^verbatim>\<open>process_all\<close>: \<open>file\<close> is copied
  to the place below \<open>target\<close> that it has below \<open>base\<close>.\<close>

definition copy_below :: "path \<Rightarrow> path \<Rightarrow> path \<Rightarrow> world \<Rightarrow> outcome" where
  "copy_below base target file w =
     (case relative_to file base of
        Inl e \<Rightarrow> Some (Some e, w)
      | Inr rel \<Rightarrow>
          (let output_file = joinpath_path target rel
           in and_then (attempt w (mkdir (parent output_file) w))
                (\<lambda>w1. let w2 = print (''processing '' @ path_str file @ '' -> ''
                                        @ path_str output_file) w1
                      in attempt w2 (copy file output_file w2))))"

definition copy_page_asset :: "path \<Rightarrow> path \<Rightarrow> path \<Rightarrow> world \<Rightarrow> outcome" where
  "copy_page_asset input_root output_root file w =
     (if ''_templates'' \<in> set (parts file) then Some (None, w)
      else copy_below input_root output_root file w)"

definition process_all :: "externals \<Rightarrow> path \<Rightarrow> path \<Rightarrow> world \<Rightarrow> outcome" where
  "process_all env input_root output_root w =
     and_then
       (for_walk_dir (copy_page_asset input_root output_root)
          DIRECT_COPY_EXTENSIONS [input_root] w)
       (\<lambda>w1.
          let out_template_dir = joinpath output_root ''_templates''
          in and_then (attempt w1 (mkdir out_template_dir w1))
               (\<lambda>w2.
                  and_then
                    (for_walk_dir (copy_below (joinpath input_root ''_templates'') out_template_dir)
                       (filter (\<lambda>x. x \<noteq> ''.html'') DIRECT_COPY_EXTENSIONS)
                       [joinpath input_root ''_templates''] w2)
                    (\<lambda>w3.
                       for_walk_dir (\<lambda>file. process_markdown env file input_root output_root)
                         [''.md''] [input_root] w3)))"

section \<open>Example sites\<close>

text \<open>
  Input trees on which the program is evaluated below. \<open>example_externals\<close> gives the YAML
  loader on the frontmatter blocks of the example documents only; every other text is
  refused.
\<close>

definition example_externals :: externals where
  "example_externals =
     \<lparr>safe_load = (\<lambda>s. if s = ''\<newline>title: Home\<newline>'' then Inr (YMap [(''title'', YStr ''Home'')])
                       else if s = ''\<newline>title: Notes\<newline>'' then Inr (YMap [(''title'', YStr ''Notes'')])
                       else if s = ''\<newline>template: fancy \<newline>''
                         then Inr (YMap [(''template'', YStr ''fancy '')])
                       else Inl YAMLError),
      markdown = (\<lambda>s. ''<p>'' @ s @ ''</p>''),
      dict_str = (\<lambda>m. ''{}'')\<rparr>"

definition example_template :: string where
  \<open>example_template =
     ''<title>$$DOC_TITLE$$</title><link href="style.css">$$DOC_DATE$$$$BREADCRUMBS$$$$DOC_CONTENT$$''\<close>

definition site_without_frontmatter :: world where
  "site_without_frontmatter =
     \<lparr>files = [(parse_path ''site/index.md'', ''# Hi''),
               (parse_path ''site/_templates/default.html'', example_template)],
      dirs = [parse_path ''site'', parse_path ''site/_templates''],
      stdout = []\<rparr>"

definition site_with_unknown_template :: world where
  "site_with_unknown_template =
     \<lparr>files = [(parse_path ''site/post.md'', ''---\<newline>template: fancy \<newline>---\<newline># Post''),
               (parse_path ''site/_templates/default.html'', example_template)],
      dirs = [parse_path ''site'', parse_path ''site/_templates''],
      stdout = []\<rparr>"

definition site_with_template_notes :: world where
  "site_with_template_notes =
     \<lparr>files = [(parse_path ''site/index.md'', ''---\<newline>title: Home\<newline>---\<newline># Hi''),
               (parse_path ''site/_templates/default.html'', example_template),
               (parse_path ''site/_templates/notes.md'', ''---\<newline>title: Notes\<newline>---\<newline>todo'')],
      dirs = [parse_path ''site'', parse_path ''site/_templates''],
      stdout = []\<rparr>"

section \<open>Properties of the breadcrumb generator\<close>

lemma parent_relative: "is_relative_to (parent p) q \<Longrightarrow> is_relative_to p q"
  by (auto simp: is_relative_to_def parent_def prefix_def butlast_append split: if_splits)
   (metis append_butlast_last_id append.assoc)

lemma walk_up_Some_relative:
  assumes ret: "walk_up file_dir input_root acc = Some bs"
  shows "is_relative_to file_dir input_root"
proof (rule walk_up.raw_induct [where P = "\<lambda>fd root acc bs. is_relative_to fd root", OF _ ret])
  fix walk fd root acc bs
  assume IH: "\<And>fd root acc bs. walk fd root acc = Some bs \<Longrightarrow> is_relative_to fd root"
    and step: "(if fd \<noteq> root then walk (parent fd) root (acc @ [fd]) else Some acc) = Some bs"
  show "is_relative_to fd root"
  proof (cases "fd = root")
    case True
    then show ?thesis by (simp add: is_relative_to_def)
  next
    case False
    with step have "walk (parent fd) root (acc @ [fd]) = Some bs" by simp
    then have "is_relative_to (parent fd) root" by (rule IH)
    then show ?thesis by (rule parent_relative)
  qed
qed

lemma tail_update_eq: "(p\<lparr>tail := t\<rparr> = p) = (t = tail p)"
  by (cases p) auto

text \<open>The crumbs the loop collects on the way from \<open>root\<close> extended by \<open>xs\<close> up to \<open>root\<close>.\<close>

lemma walk_up_below:
  "walk_up (root\<lparr>tail := tail root @ xs\<rparr>) root acc =
     Some (acc @ map (\<lambda>ys. root\<lparr>tail := tail root @ ys\<rparr>) (rev (tl (prefixes xs))))"
proof (induction xs arbitrary: acc rule: rev_induct)
  case Nil
  show ?case by (subst walk_up.simps) simp
next
  case (snoc x xs)
  have ne: "root\<lparr>tail := tail root @ xs @ [x]\<rparr> \<noteq> root"
    by (simp add: tail_update_eq)
  have par: "parent (root\<lparr>tail := tail root @ xs @ [x]\<rparr>) = root\<lparr>tail := tail root @ xs\<rparr>"
    by (simp add: parent_def butlast_append)
  have tl_snoc: "tl (prefixes (xs @ [x])) = tl (prefixes xs) @ [xs @ [x]]"
    by (cases "prefixes xs") simp_all
  have "walk_up (root\<lparr>tail := tail root @ xs @ [x]\<rparr>) root acc =
        walk_up (root\<lparr>tail := tail root @ xs\<rparr>) root (acc @ [root\<lparr>tail := tail root @ xs @ [x]\<rparr>])"
    by (subst walk_up.simps) (simp only: ne par if_True not_False_eq_True)
  also have "\<dots> = Some ((acc @ [root\<lparr>tail := tail root @ xs @ [x]\<rparr>])
      @ map (\<lambda>ys. root\<lparr>tail := tail root @ ys\<rparr>) (rev (tl (prefixes xs))))"
    by (rule snoc.IH)
  finally show ?case by (simp add: tl_snoc)
qed

lemma relative_decompose:
  "is_relative_to p q \<Longrightarrow> p = q\<lparr>tail := tail q @ drop (length (tail q)) (tail p)\<rparr>"
  by (cases p, cases q) (auto simp: is_relative_to_def prefix_def)

text \<open>
  The loop ends exactly when the path it starts from is the input root or lies below it:
  from such a path it returns, and from any other path it never reaches the input root
  and runs forever.
\<close>

lemma walk_up_returns_iff:
  "(walk_up file_dir input_root acc \<noteq> None) = is_relative_to file_dir input_root"
proof
  assume "walk_up file_dir input_root acc \<noteq> None"
  then show "is_relative_to file_dir input_root" by (auto dest: walk_up_Some_relative)
next
  assume "is_relative_to file_dir input_root"
  then have "file_dir = input_root\<lparr>tail := tail input_root @ drop (length (tail input_root)) (tail file_dir)\<rparr>"
    by (rule relative_decompose)
  then have "\<exists>bs. walk_up file_dir input_root acc = Some bs"
    using walk_up_below [of input_root "drop (length (tail input_root)) (tail file_dir)" acc]
    by simp
  then show "walk_up file_dir input_root acc \<noteq> None" by auto
qed

text \<open>
  The loop does not start from the file path it is given: lines 51 to 55 first remove the
  suffix and then drop a final \<^verbatim>\<open>index\<close>. The function returns (a value or the
  \<open>ValueError\<close> of \<^verbatim>\<open>with_suffix\<close>) unless that path has left the input root.
\<close>

lemma gen_breadcrumbs_html_None_iff:
  "(gen_breadcrumbs_html file_dir input_root = None)
   = (\<exists>fd. with_suffix file_dir [] = Inr fd
           \<and> \<not> is_relative_to (if name fd = ''index'' then parent fd else fd) input_root)"
proof (cases "with_suffix file_dir []")
  case (Inl e)
  then show ?thesis by (simp add: gen_breadcrumbs_html_def collect_breadcrumbs_def)
next
  case (Inr fd)
  have "(gen_breadcrumbs_html file_dir input_root = None)
        = (walk_up (if name fd = ''index'' then parent fd else fd) input_root [] = None)"
    by (simp add: gen_breadcrumbs_html_def collect_breadcrumbs_def Inr split: option.splits)
  also have "\<dots> = (\<not> is_relative_to (if name fd = ''index'' then parent fd else fd) input_root)"
    using walk_up_returns_iff [of "if name fd = ''index'' then parent fd else fd" input_root "[]"]
    by blast
  finally show ?thesis by (simp add: Inr)
qed

text \<open>
  For a file strictly below the input root the path the walk starts from is still the
  root or below it. This is the case of every call the program makes.
\<close>

lemma with_suffix_below:
  assumes "with_suffix (root\<lparr>tail := tail root @ xs\<rparr>) sfx = Inr fd" and "xs \<noteq> []"
  shows "\<exists>nm. fd = root\<lparr>tail := tail root @ butlast xs @ [nm]\<rparr>"
  using assms
  by (auto simp: with_suffix_def Let_def butlast_append split: if_splits)

lemma walk_start_below:
  assumes rel: "is_relative_to file_dir input_root" and ne: "file_dir \<noteq> input_root"
    and fd: "with_suffix file_dir [] = Inr fd"
  shows "is_relative_to (if name fd = ''index'' then parent fd else fd) input_root"
proof -
  define xs where "xs = drop (length (tail input_root)) (tail file_dir)"
  from relative_decompose [OF rel]
  have below: "file_dir = input_root\<lparr>tail := tail input_root @ xs\<rparr>" by (simp add: xs_def)
  with ne have xs: "xs \<noteq> []" by (auto simp: tail_update_eq)
  from with_suffix_below [of input_root xs "[]" fd] fd below xs
  obtain nm where p: "fd = input_root\<lparr>tail := tail input_root @ butlast xs @ [nm]\<rparr>" by auto
  have par: "parent fd = input_root\<lparr>tail := tail input_root @ butlast xs\<rparr>"
    by (simp add: p parent_def butlast_append)
  have "is_relative_to fd input_root" by (simp add: p is_relative_to_def)
  moreover have "is_relative_to (parent fd) input_root" by (simp add: par is_relative_to_def)
  ultimately show ?thesis by simp
qed

text \<open>
  When the file path is the input root itself, the path the walk starts from can leave
  the root: from a root named \<^verbatim>\<open>index\<close> the walk starts at its parent and never ends. And
  a file path outside the input root can be brought to the root: \<^verbatim>\<open>site/a.md\<close> is not
  below \<^verbatim>\<open>site/a\<close>, and the walk starts at \<^verbatim>\<open>site/a\<close> and ends at once.
\<close>

lemma walk_from_root_named_index:
  "gen_breadcrumbs_html (parse_path ''site/index'') (parse_path ''site/index'') = None"
proof -
  have "with_suffix (parse_path ''site/index'') [] = Inr (parse_path ''site/index'')"
    by code_simp
  moreover have "name (parse_path ''site/index'') = ''index''" by code_simp
  moreover have "parent (parse_path ''site/index'') = parse_path ''site''" by code_simp
  moreover have "\<not> is_relative_to (parse_path ''site'') (parse_path ''site/index'')"
    by (simp add: is_relative_to_def parse_path_def startswith_def)
  ultimately show ?thesis
    by (simp add: gen_breadcrumbs_html_None_iff)
qed

lemma walk_from_outside_root:
  "gen_breadcrumbs_html (parse_path ''site/a.md'') (parse_path ''site/a'') = Some (Inr [])"
  by code_simp

text \<open>
  Claim C10, as the code has it. The upward walk of \<^verbatim>\<open>gen_breadcrumbs_html\<close> ends for
  every file path that lies strictly below the input root. In general the walk does not
  end exactly when the path it starts from, which is the file path without its suffix
  and without a final \<^verbatim>\<open>index\<close>, is not the input root and does not lie below it: from
  there the walk never reaches the input root.
\<close>

theorem gen_breadcrumbs_html_walk_terminates:
  "(is_relative_to file_dir input_root \<and> file_dir \<noteq> input_root
      \<longrightarrow> gen_breadcrumbs_html file_dir input_root \<noteq> None)
   \<and> (gen_breadcrumbs_html file_dir input_root = None)
     = (\<exists>fd. with_suffix file_dir [] = Inr fd
             \<and> \<not> is_relative_to (if name fd = ''index'' then parent fd else fd) input_root)"
proof (intro conjI impI)
  assume below: "is_relative_to file_dir input_root \<and> file_dir \<noteq> input_root"
  show "gen_breadcrumbs_html file_dir input_root \<noteq> None"
  proof
    assume "gen_breadcrumbs_html file_dir input_root = None"
    then obtain fd where fd: "with_suffix file_dir [] = Inr fd"
      and out: "\<not> is_relative_to (if name fd = ''index'' then parent fd else fd) input_root"
      unfolding gen_breadcrumbs_html_None_iff by blast
    from below have rel: "is_relative_to file_dir input_root" and ne: "file_dir \<noteq> input_root"
      by simp_all
    from walk_start_below [OF rel ne fd] out show False by contradiction
  qed
next
  show "(gen_breadcrumbs_html file_dir input_root = None)
        = (\<exists>fd. with_suffix file_dir [] = Inr fd
                \<and> \<not> is_relative_to (if name fd = ''index'' then parent fd else fd) input_root)"
    by (rule gen_breadcrumbs_html_None_iff)
qed

text \<open>The walk for \<^verbatim>\<open>site/a/b/page.md\<close>, which lies strictly below \<^verbatim>\<open>site\<close>, ends; the
  walk for \<^verbatim>\<open>elsewhere/page.md\<close>, which starts outside \<^verbatim>\<open>site\<close>, does not.\<close>

theorem gen_breadcrumbs_html_walk_terminates_witness:
  "is_relative_to (parse_path ''site/a/b/page.md'') (parse_path ''site'')
   \<and> parse_path ''site/a/b/page.md'' \<noteq> parse_path ''site''
   \<and> gen_breadcrumbs_html (parse_path ''site/a/b/page.md'') (parse_path ''site'') \<noteq> None
   \<and> gen_breadcrumbs_html (parse_path ''elsewhere/page.md'') (parse_path ''site'') = None"
proof -
  have below: "is_relative_to (parse_path ''site/a/b/page.md'') (parse_path ''site'')
               \<and> parse_path ''site/a/b/page.md'' \<noteq> parse_path ''site''"
    by (simp add: is_relative_to_def parse_path_def startswith_def)
  have start: "with_suffix (parse_path ''elsewhere/page.md'') [] = Inr (parse_path ''elsewhere/page'')"
    by code_simp
  have outside: "\<not> is_relative_to
                    (if name (parse_path ''elsewhere/page'') = ''index''
                     then parent (parse_path ''elsewhere/page'') else parse_path ''elsewhere/page'')
                    (parse_path ''site'')"
    by (simp add: is_relative_to_def parse_path_def startswith_def name_def)
  from gen_breadcrumbs_html_walk_terminates
         [of "parse_path ''site/a/b/page.md''" "parse_path ''site''"] below
  have "gen_breadcrumbs_html (parse_path ''site/a/b/page.md'') (parse_path ''site'') \<noteq> None"
    by blast
  moreover from gen_breadcrumbs_html_walk_terminates
         [of "parse_path ''elsewhere/page.md''" "parse_path ''site''"] start outside
  have "gen_breadcrumbs_html (parse_path ''elsewhere/page.md'') (parse_path ''site'') = None"
    by blast
  ultimately show ?thesis using below by blast
qed

text \<open>
  Claim C10 as stated fails in both directions. The path \<^verbatim>\<open>site/index\<close> lies at the input
  root \<^verbatim>\<open>site/index\<close>, and the walk for it does not end. The path \<^verbatim>\<open>site/a.md\<close> is not
  under the input root \<^verbatim>\<open>site/a\<close>, and the walk for it ends, with no markup.
\<close>

theorem gen_breadcrumbs_html_walk_counterexample:
  "is_relative_to (parse_path ''site/index'') (parse_path ''site/index'')
   \<and> gen_breadcrumbs_html (parse_path ''site/index'') (parse_path ''site/index'') = None
   \<and> \<not> is_relative_to (parse_path ''site/a.md'') (parse_path ''site/a'')
   \<and> gen_breadcrumbs_html (parse_path ''site/a.md'') (parse_path ''site/a'') = Some (Inr [])"
  using walk_from_root_named_index walk_from_outside_root
  by (simp add: is_relative_to_def parse_path_def startswith_def)

lemma joinpath_page:
  "joinpath input_root ''a/b/page.md'' = input_root\<lparr>tail := tail input_root @ [''a'', ''b'', ''page.md'']\<rparr>"
  by (simp add: joinpath_def parse_path_def startswith_def)

lemma suffix_of_page: "suffix_of ''page.md'' = ''.md''"
  by (simp add: suffix_of_def rfind_char_def)

lemma with_suffix_page:
  "with_suffix (input_root\<lparr>tail := tail input_root @ [''a'', ''b'', ''page.md'']\<rparr>) [] =
     Inr (input_root\<lparr>tail := tail input_root @ [''a'', ''b'', ''page'']\<rparr>)"
  by (simp add: with_suffix_def name_def suffix_path_def suffix_of_page butlast_append)

lemma collect_breadcrumbs_page:
  "collect_breadcrumbs (joinpath input_root ''a/b/page.md'') input_root =
     Some (Inr [input_root\<lparr>tail := tail input_root @ [''a'', ''b'', ''page'']\<rparr>,
                input_root\<lparr>tail := tail input_root @ [''a'', ''b'']\<rparr>,
                input_root\<lparr>tail := tail input_root @ [''a'']\<rparr>,
                input_root])"
  by (simp add: collect_breadcrumbs_def joinpath_page with_suffix_page name_def walk_up_below)

text \<open>
  The markup for \<^verbatim>\<open>a/b/page.md\<close>, and for its neighbour \<^verbatim>\<open>a/b/index.md\<close>. Each crumb
  links to \<^verbatim>\<open>..\<close> once for every crumb after it. For the index page, written to
  \<^verbatim>\<open>a/b/index.html\<close>, these links lead to the directories the crumbs name. For
  \<^verbatim>\<open>page\<close>, written to \<^verbatim>\<open>a/b/page.html\<close> in the same directory, the page itself is one
  more crumb, and the links of the crumbs before it lead one directory higher than the
  crumbs name.
\<close>

lemma gen_breadcrumbs_html_page_links:
  \<open>gen_breadcrumbs_html (joinpath input_root ''a/b/page.md'') input_root =
     Some (Inr (''<nav class="breadcrumbs">''
                @ ''<a href="../../..">root</a>'' @ '' / '' @ ''<a href="../..">a</a>''
                @ '' / '' @ ''<a href="..">b</a>'' @ '' / '' @ ''<a href="">page</a>''
                @ ''</nav>''))\<close>
  by (simp add: gen_breadcrumbs_html_def collect_breadcrumbs_page breadcrumbs_html_def
      enumerate_eq_zip upt_rec crumb_html_def crumb_href_def crumb_label_def name_def
      numeral_eq_Suc)

lemma collect_breadcrumbs_index_page:
  "collect_breadcrumbs (joinpath input_root ''a/b/index.md'') input_root =
     Some (Inr [input_root\<lparr>tail := tail input_root @ [''a'', ''b'']\<rparr>,
                input_root\<lparr>tail := tail input_root @ [''a'']\<rparr>,
                input_root])"
proof -
  have "joinpath input_root ''a/b/index.md''
        = input_root\<lparr>tail := tail input_root @ [''a'', ''b'', ''index.md'']\<rparr>"
    by (simp add: joinpath_def parse_path_def startswith_def)
  moreover have "suffix_of ''index.md'' = ''.md''"
    by (simp add: suffix_of_def rfind_char_def)
  then have "with_suffix (input_root\<lparr>tail := tail input_root @ [''a'', ''b'', ''index.md'']\<rparr>) []
             = Inr (input_root\<lparr>tail := tail input_root @ [''a'', ''b'', ''index'']\<rparr>)"
    by (simp add: with_suffix_def name_def suffix_path_def butlast_append)
  moreover have "parent (input_root\<lparr>tail := tail input_root @ [''a'', ''b'', ''index'']\<rparr>)
                 = input_root\<lparr>tail := tail input_root @ [''a'', ''b'']\<rparr>"
    by (simp add: parent_def butlast_append)
  ultimately show ?thesis
    by (simp add: collect_breadcrumbs_def name_def walk_up_below)
qed

lemma gen_breadcrumbs_html_index_page_links:
  \<open>gen_breadcrumbs_html (joinpath input_root ''a/b/index.md'') input_root =
     Some (Inr (''<nav class="breadcrumbs">''
                @ ''<a href="../..">root</a>'' @ '' / '' @ ''<a href="..">a</a>''
                @ '' / '' @ ''<a href="">b</a>'' @ ''</nav>''))\<close>
  by (simp add: gen_breadcrumbs_html_def collect_breadcrumbs_index_page breadcrumbs_html_def
      enumerate_eq_zip upt_rec crumb_html_def crumb_href_def crumb_label_def name_def
      numeral_eq_Suc)

text \<open>
  Claim C1, as the code has it. For the document \<^verbatim>\<open>a/b/page.md\<close> below any input root the
  generator renders four crumbs, root first: \<^verbatim>\<open>root\<close>, \<^verbatim>\<open>a\<close>, \<^verbatim>\<open>b\<close> and the page itself,
  \<^verbatim>\<open>page\<close>. Each is a link, that of \<^verbatim>\<open>page\<close>, the current crumb, the empty one and the
  others made of parent traversals only; they are joined by \<^verbatim>\<open> / \<close> and stand in a
  \<^verbatim>\<open>nav\<close> element of class \<^verbatim>\<open>breadcrumbs\<close>. How many parent traversals each link has
  is not part of the statement.
\<close>

theorem gen_breadcrumbs_html_page:
  \<open>\<exists>i j k.
     gen_breadcrumbs_html (joinpath input_root ''a/b/page.md'') input_root =
       Some (Inr (''<nav class="breadcrumbs">''
                  @ ''<a href="'' @ join ''/'' (replicate i ''..'') @ ''">root</a>'' @ '' / ''
                  @ ''<a href="'' @ join ''/'' (replicate j ''..'') @ ''">a</a>'' @ '' / ''
                  @ ''<a href="'' @ join ''/'' (replicate k ''..'') @ ''">b</a>'' @ '' / ''
                  @ ''<a href="">page</a>'' @ ''</nav>''))\<close>
proof (intro exI)
  show \<open>gen_breadcrumbs_html (joinpath input_root ''a/b/page.md'') input_root =
          Some (Inr (''<nav class="breadcrumbs">''
                     @ ''<a href="'' @ join ''/'' (replicate 3 ''..'') @ ''">root</a>'' @ '' / ''
                     @ ''<a href="'' @ join ''/'' (replicate 2 ''..'') @ ''">a</a>'' @ '' / ''
                     @ ''<a href="'' @ join ''/'' (replicate 1 ''..'') @ ''">b</a>'' @ '' / ''
                     @ ''<a href="">page</a>'' @ ''</nav>''))\<close>
    by (simp add: gen_breadcrumbs_html_page_links numeral_eq_Suc)
qed

text \<open>
  Claim C1 as stated asks for exactly the three crumbs \<^verbatim>\<open>root\<close>, \<^verbatim>\<open>a\<close>, \<^verbatim>\<open>b\<close>; for
  \<^verbatim>\<open>site/a/b/page.md\<close> under \<^verbatim>\<open>site\<close> the labels of the collected crumbs are not these.
\<close>

theorem gen_breadcrumbs_html_page_counterexample:
  "map_option (map_sum id crumb_labels)
     (collect_breadcrumbs (parse_path ''site/a/b/page.md'') (parse_path ''site''))
   \<noteq> Some (Inr [''root'', ''a'', ''b''])"
  using collect_breadcrumbs_page [of "parse_path ''site''"]
  by (simp add: joinpath_def parse_path_def startswith_def crumb_labels_def enumerate_eq_zip upt_rec)

lemma walk_up_at_root: "walk_up input_root input_root acc = Some acc"
  by (subst walk_up.simps) simp

lemma collect_breadcrumbs_index:
  "collect_breadcrumbs (joinpath input_root ''index.md'') input_root = Some (Inr [input_root])"
  by (simp add: collect_breadcrumbs_def joinpath_def parse_path_def startswith_def
      with_suffix_def name_def suffix_path_def suffix_of_def rfind_char_def butlast_append
      parent_def walk_up_at_root)

lemma walk_up_length:
  assumes ret: "walk_up file_dir input_root acc = Some bs"
  shows "(length bs = length acc) = (file_dir = input_root)"
proof -
  from ret have "is_relative_to file_dir input_root" by (rule walk_up_Some_relative)
  then have fd: "file_dir = input_root\<lparr>tail := tail input_root @ drop (length (tail input_root)) (tail file_dir)\<rparr>"
    by (rule relative_decompose)
  define xs where "xs = drop (length (tail input_root)) (tail file_dir)"
  from fd have fd': "file_dir = input_root\<lparr>tail := tail input_root @ xs\<rparr>" by (simp add: xs_def)
  with ret walk_up_below [of input_root xs acc]
  have "bs = acc @ map (\<lambda>ys. input_root\<lparr>tail := tail input_root @ ys\<rparr>) (rev (tl (prefixes xs)))"
    by simp
  then have "length bs = length acc + length xs" by simp
  moreover have "(file_dir = input_root) = (xs = [])"
    by (subst fd') (simp add: tail_update_eq)
  ultimately show ?thesis by auto
qed

text \<open>
  Claim C9. For \<^verbatim>\<open>index.md\<close> directly in the input root the generator returns the empty
  string, and so it does whenever exactly one crumb was collected; one crumb is collected
  exactly when the path, without its extension and without a final \<^verbatim>\<open>index\<close>, is the
  input root.
\<close>

theorem gen_breadcrumbs_html_root:
  "gen_breadcrumbs_html (joinpath input_root ''index.md'') input_root = Some (Inr [])
   \<and> (\<forall>file_dir cs. collect_breadcrumbs file_dir input_root = Some (Inr cs) \<and> length cs = 1
         \<longrightarrow> gen_breadcrumbs_html file_dir input_root = Some (Inr []))
   \<and> (\<forall>file_dir cs. collect_breadcrumbs file_dir input_root = Some (Inr cs)
         \<longrightarrow> (length cs = 1) =
             (\<exists>fd. with_suffix file_dir [] = Inr fd
                   \<and> (if name fd = ''index'' then parent fd else fd) = input_root))"
proof (intro conjI allI impI)
  show "gen_breadcrumbs_html (joinpath input_root ''index.md'') input_root = Some (Inr [])"
    by (simp add: gen_breadcrumbs_html_def collect_breadcrumbs_index breadcrumbs_html_def)
next
  fix file_dir cs
  assume "collect_breadcrumbs file_dir input_root = Some (Inr cs) \<and> length cs = 1"
  then show "gen_breadcrumbs_html file_dir input_root = Some (Inr [])"
    by (simp add: gen_breadcrumbs_html_def breadcrumbs_html_def)
next
  fix file_dir cs
  assume c: "collect_breadcrumbs file_dir input_root = Some (Inr cs)"
  then obtain fd bs where fd: "with_suffix file_dir [] = Inr fd"
    and w: "walk_up (if name fd = ''index'' then parent fd else fd) input_root [] = Some bs"
    and cs: "cs = bs @ [input_root]"
    by (auto simp: collect_breadcrumbs_def split: sum.splits option.splits)
  from walk_up_length [OF w] cs fd
  show "(length cs = 1) =
        (\<exists>fd. with_suffix file_dir [] = Inr fd
              \<and> (if name fd = ''index'' then parent fd else fd) = input_root)"
    by auto
qed

text \<open>\<^verbatim>\<open>site/index.md\<close> under \<^verbatim>\<open>site\<close>: one crumb, no markup.\<close>

theorem gen_breadcrumbs_html_root_witness:
  "gen_breadcrumbs_html (parse_path ''site/index.md'') (parse_path ''site'') = Some (Inr [])
   \<and> collect_breadcrumbs (parse_path ''site/index.md'') (parse_path ''site'')
       = Some (Inr [parse_path ''site''])
   \<and> length [parse_path ''site''] = 1"
  using gen_breadcrumbs_html_root [of "parse_path ''site''"]
    collect_breadcrumbs_index [of "parse_path ''site''"]
  by (simp add: joinpath_def parse_path_def startswith_def)

section \<open>Properties of the frontmatter parser\<close>

lemma find_at_prefix: "prefix sub t \<Longrightarrow> find_at i sub t = int i"
  by (cases t) auto

lemma find_at_first:
  "\<forall>k<length u. \<not> prefix sub (drop k (u @ sub @ v)) \<Longrightarrow>
   find_at i sub (u @ sub @ v) = int (i + length u)"
proof (induction u arbitrary: i)
  case Nil
  show ?case by (simp add: find_at_prefix)
next
  case (Cons a u)
  from Cons.prems have no0: "\<not> prefix sub (a # u @ sub @ v)"
    by (auto dest: spec [where x = 0])
  have rest: "\<forall>k<length u. \<not> prefix sub (drop k (u @ sub @ v))"
  proof (intro allI impI)
    fix k assume "k < length u"
    then have "Suc k < length (a # u)" by simp
    with Cons.prems have "\<not> prefix sub (drop (Suc k) ((a # u) @ sub @ v))" by blast
    then show "\<not> prefix sub (drop k (u @ sub @ v))" by simp
  qed
  from Cons.IH [OF rest, of "Suc i"] no0 show ?case by simp
qed

lemma find_at_found:
  "find_at i sub t \<noteq> - 1 \<Longrightarrow>
   \<exists>u v. t = u @ sub @ v \<and> find_at i sub t = int (i + length u)"
proof (induction t arbitrary: i)
  case Nil
  then show ?case by (auto split: if_splits)
next
  case (Cons c cs)
  show ?case
  proof (cases "prefix sub (c # cs)")
    case True
    then obtain v where "c # cs = sub @ v" by (auto simp: prefix_def)
    then have "c # cs = [] @ sub @ v \<and> find_at i sub (c # cs) = int (i + length ([]::string))"
      using True by (simp add: find_at_prefix del: find_at.simps)
    then show ?thesis by blast
  next
    case False
    with Cons.prems have "find_at (Suc i) sub cs \<noteq> - 1" by simp
    from Cons.IH [OF this] obtain u v where "cs = u @ sub @ v"
      and "find_at (Suc i) sub cs = int (Suc i + length u)" by blast
    then have "c # cs = (c # u) @ sub @ v \<and> find_at i sub (c # cs) = int (i + length (c # u))"
      using False by simp
    then show ?thesis by blast
  qed
qed

lemma dashes_within:
  assumes "p \<noteq> []" and "prefix ''---'' (p @ ''---'' @ rest)"
  shows "prefix ''---'' (p @ ''--'')"
proof -
  from assms(1) obtain a p1 where p: "p = a # p1" by (cases p) auto
  show ?thesis
  proof (cases p1)
    case Nil
    with p assms(2) show ?thesis by simp
  next
    case (Cons b p2)
    with p assms(2) show ?thesis by (cases p2) auto
  qed
qed

lemma no_dashes_before:
  assumes "\<not> sublist ''---'' (pre @ ''--'')"
  shows "\<forall>k<length pre. \<not> prefix ''---'' (drop k (pre @ ''---'' @ rest))"
proof (intro allI impI notI)
  fix k assume k: "k < length pre" and pf: "prefix ''---'' (drop k (pre @ ''---'' @ rest))"
  from k have ne: "drop k pre \<noteq> []" by simp
  from k pf have "prefix ''---'' (drop k pre @ ''---'' @ rest)" by simp
  with ne have "prefix ''---'' (drop k pre @ ''--'')" by (rule dashes_within)
  then obtain t where "drop k pre @ ''--'' = ''---'' @ t" by (auto simp: prefix_def)
  then have "pre @ ''--'' = take k pre @ ''---'' @ t"
    by (metis append_take_drop_id append.assoc)
  then have "sublist ''---'' (pre @ ''--'')" unfolding sublist_def by blast
  with assms show False by contradiction
qed

lemma find_str_first:
  assumes "\<not> sublist ''---'' (pre @ ''--'')"
  shows "find_str (pre @ ''---'' @ rest) ''---'' 0 = int (length pre)"
  using find_at_first [OF no_dashes_before [OF assms, of rest], of 0]
  by (simp add: find_str_def)

lemma find_str_next:
  assumes "\<not> sublist ''---'' (block @ ''--'')"
  shows "find_str (pre @ ''---'' @ block @ ''---'' @ body) ''---'' (int (length pre) + 3)
         = int (length pre) + 3 + int (length block)"
proof -
  have dr: "drop (length pre + 3) (pre @ ''---'' @ block @ ''---'' @ body) = block @ ''---'' @ body"
    by simp
  have "find_at (length pre + 3) ''---'' (block @ ''---'' @ body) = int (length pre + 3 + length block)"
    by (rule find_at_first [OF no_dashes_before [OF assms]])
  with dr show ?thesis
    by (simp add: find_str_def Let_def nat_add_distrib del: find_at.simps)
qed

text \<open>
  Claim C6. Let the document be \<open>pre\<close>, three dashes, \<open>block\<close>, three dashes and \<open>body\<close>, where
  the first three dashes are the first in the document (none begins within \<open>pre\<close>) and the
  second are the next after them (none begins within \<open>block\<close>). When the YAML loader accepts
  \<open>block\<close>, \<^verbatim>\<open>parse_frontmatter\<close> returns what it loads from exactly \<open>block\<close>, together
  with exactly \<open>body\<close>.
\<close>

theorem parse_frontmatter_block:
  assumes md: "doc = pre @ ''---'' @ block @ ''---'' @ body"
    and first: "\<not> sublist ''---'' (pre @ ''--'')"
    and nxt: "\<not> sublist ''---'' (block @ ''--'')"
    and ld: "load block = Inr mapping"
  shows "parse_frontmatter load doc = Inr (mapping, body)"
proof -
  have s: "find_str doc ''---'' 0 = int (length pre)"
    unfolding md by (rule find_str_first [OF first])
  have e: "find_str doc ''---'' (int (length pre) + 3) = int (length pre) + 3 + int (length block)"
    unfolding md by (rule find_str_next [OF nxt])
  have sl: "slice doc (int (length pre) + 3) (int (length pre) + 3 + int (length block)) = block"
    unfolding md by (simp add: slice_def clamp_index_def nat_add_distrib)
  have len: "nat (int (length pre) + 3 + int (length block) + 3)
             = length (pre @ ''---'' @ block @ ''---'')"
    by simp
  have "drop (length (pre @ ''---'' @ block @ ''---'')) ((pre @ ''---'' @ block @ ''---'') @ body)
        = body"
    by (rule append_eq_conv_conj [THEN iffD1, THEN conjunct2, symmetric]) (rule refl)
  then have sf: "slice_from doc (int (length pre) + 3 + int (length block) + 3) = body"
    unfolding md slice_from_def clamp_index_def len by simp
  show ?thesis
    by (simp only: parse_frontmatter_def Let_def s e sl sf ld bind_result_def) simp
qed

text \<open>A document with a title block: the block between the delimiters is loaded, and the
  body is the text after the second delimiter.\<close>

theorem parse_frontmatter_block_witness:
  "parse_frontmatter (\<lambda>s. if s = ''\<newline>title: Home\<newline>'' then Inr (YMap [(''title'', YStr ''Home'')]) else Inl YAMLError)
     ''---\<newline>title: Home\<newline>---\<newline># Hi''
   = Inr (YMap [(''title'', YStr ''Home'')], ''\<newline># Hi'')"
proof -
  have a: "\<not> sublist ''---'' ([] @ ''--'')" by (simp add: sublist_Cons_right)
  have b: "\<not> sublist ''---'' (''\<newline>title: Home\<newline>'' @ ''--'')" by (simp add: sublist_Cons_right)
  have c: "''---\<newline>title: Home\<newline>---\<newline># Hi'' = [] @ ''---'' @ ''\<newline>title: Home\<newline>'' @ ''---'' @ ''\<newline># Hi''"
    by simp
  have d: "(\<lambda>s. if s = ''\<newline>title: Home\<newline>'' then Inr (YMap [(''title'', YStr ''Home'')]) else Inl YAMLError) ''\<newline>title: Home\<newline>'' = Inr (YMap [(''title'', YStr ''Home'')])"
    by simp
  show ?thesis
    by (rule parse_frontmatter_block [of "''---\<newline>title: Home\<newline>---\<newline># Hi''" "[]"
          "''\<newline>title: Home\<newline>''" "''\<newline># Hi''"
          "\<lambda>s. if s = ''\<newline>title: Home\<newline>'' then Inr (YMap [(''title'', YStr ''Home'')])
               else Inl YAMLError"
          "YMap [(''title'', YStr ''Home'')]", OF c a b d])
qed

lemma find_at_bounds:
  "int i \<le> find_at i sub (u @ sub @ v) \<and> find_at i sub (u @ sub @ v) \<le> int (i + length u)"
proof (induction u arbitrary: i)
  case Nil
  show ?case by (simp add: find_at_prefix del: find_at.simps)
next
  case (Cons a u)
  from Cons.IH [of "Suc i"] show ?case by simp
qed

lemma find_str_0: "find_str doc sub 0 = find_at 0 sub doc"
  by (simp add: find_str_def)

lemma find_str_from:
  "find_str doc sub (int n) =
     (if length doc < n then - 1 else find_at n sub (drop n doc))"
  by (simp add: find_str_def Let_def)

lemma two_delimiters_found:
  assumes doc: "doc = pre @ ''---'' @ block @ ''---'' @ body"
  shows "\<exists>s e. find_str doc ''---'' 0 = int s \<and> find_str doc ''---'' (int s + 3) = int e
               \<and> s + 3 \<le> e"
proof -
  from find_at_bounds [of 0 "''---''" pre "block @ ''---'' @ body"]
  have b: "0 \<le> find_at 0 ''---'' doc" "find_at 0 ''---'' doc \<le> int (length pre)"
    unfolding doc by simp_all
  define s where "s = nat (find_at 0 ''---'' doc)"
  from b have s: "find_at 0 ''---'' doc = int s" and sle: "s \<le> length pre"
    by (simp_all add: s_def)
  define w where "w = pre @ ''---'' @ block"
  have wlen: "s + 3 \<le> length w" using sle by (simp add: w_def)
  have docw: "doc = w @ ''---'' @ body" by (simp add: doc w_def)
  have "drop (s + 3) (w @ ''---'' @ body) = drop (s + 3) w @ ''---'' @ body"
    using wlen by simp
  then have split: "drop (s + 3) doc = drop (s + 3) (pre @ ''---'' @ block) @ ''---'' @ body"
    unfolding docw w_def .
  from find_at_bounds [of "s + 3" "''---''" "drop (s + 3) (pre @ ''---'' @ block)" body]
  have lo: "int (s + 3) \<le> find_at (s + 3) ''---'' (drop (s + 3) doc)"
    unfolding split by simp
  define e where "e = nat (find_at (s + 3) ''---'' (drop (s + 3) doc))"
  from lo have e: "find_at (s + 3) ''---'' (drop (s + 3) doc) = int e" and se: "s + 3 \<le> e"
    by (simp_all add: e_def)
  have inside: "\<not> length doc < s + 3" using sle unfolding doc by simp
  have "find_str doc ''---'' (int s + 3) = int e"
    using find_str_from [of doc "''---''" "s + 3"] inside e by simp
  with s se show ?thesis by (auto simp: find_str_0)
qed

lemma two_delimiters_exist:
  assumes s: "find_str doc ''---'' 0 = int s"
    and e: "find_str doc ''---'' (int s + 3) \<noteq> - 1"
  shows "\<exists>pre block body. doc = pre @ ''---'' @ block @ ''---'' @ body"
proof -
  from s have "find_at 0 ''---'' doc \<noteq> - 1" by (simp add: find_str_0)
  from find_at_found [OF this] s obtain u v where uv: "doc = u @ ''---'' @ v" and su: "s = length u"
    by (auto simp: find_str_0)
  from e find_str_from [of doc "''---''" "s + 3"]
  have "find_at (s + 3) ''---'' (drop (s + 3) doc) \<noteq> - 1"
    by (simp split: if_splits)
  from find_at_found [OF this] obtain u2 v2 where "drop (s + 3) doc = u2 @ ''---'' @ v2"
    by blast
  with uv su have "v = u2 @ ''---'' @ v2" by simp
  with uv show ?thesis by blast
qed

text \<open>
  Claim C7. \<^verbatim>\<open>parse_frontmatter\<close> returns no frontmatter and the whole input as the body
  exactly when a delimiter is missing, that is, when the input does not hold two
  occurrences of three dashes one after the other; so it does for every input without
  three dashes. This holds whatever the YAML loader does.
\<close>

theorem parse_frontmatter_missing_delimiter:
  "(parse_frontmatter load doc = Inr (YNull, doc))
   = (\<not> (\<exists>pre block body. doc = pre @ ''---'' @ block @ ''---'' @ body))"
proof (cases "\<exists>pre block body. doc = pre @ ''---'' @ block @ ''---'' @ body")
  case True
  then obtain pre block body where doc: "doc = pre @ ''---'' @ block @ ''---'' @ body" by blast
  from two_delimiters_found [OF doc] obtain s e
    where s: "find_str doc ''---'' 0 = int s" and e: "find_str doc ''---'' (int s + 3) = int e"
      and se: "s + 3 \<le> e" by blast
  have "length doc \<ge> 6" unfolding doc by simp
  with se have "length (slice_from doc (int e + 3)) < length doc"
    by (simp add: slice_from_def clamp_index_def)
  then have ne: "slice_from doc (int e + 3) \<noteq> doc" by auto
  have "parse_frontmatter load doc \<noteq> Inr (YNull, doc)"
    using ne by (simp add: parse_frontmatter_def Let_def s e bind_result_def split: sum.splits)
  with True show ?thesis by simp
next
  case False
  have "find_str doc ''---'' 0 = - 1 \<or> find_str doc ''---'' (find_str doc ''---'' 0 + 3) = - 1"
  proof (rule ccontr)
    assume "\<not> ?thesis"
    then have a: "find_str doc ''---'' 0 \<noteq> - 1"
      and b: "find_str doc ''---'' (find_str doc ''---'' 0 + 3) \<noteq> - 1" by auto
    from a have "find_at 0 ''---'' doc \<noteq> - 1" by (simp add: find_str_0)
    from find_at_found [OF this] obtain u :: string
      where "find_str doc ''---'' 0 = int (length u)"
      by (auto simp: find_str_0)
    with b two_delimiters_exist [of doc "length u"] False show False by simp
  qed
  then have "parse_frontmatter load doc = Inr (YNull, doc)"
    by (auto simp: parse_frontmatter_def Let_def)
  with False show ?thesis by simp
qed

text \<open>A document without dashes, and one with an opening delimiter only.\<close>

theorem parse_frontmatter_missing_delimiter_witness:
  "parse_frontmatter (\<lambda>s. Inl YAMLError) ''# Hi'' = Inr (YNull, ''# Hi'')
   \<and> parse_frontmatter (\<lambda>s. Inl YAMLError) ''---\<newline>title: Home'' = Inr (YNull, ''---\<newline>title: Home'')"
proof -
  have a: "\<not> (\<exists>pre block body. ''# Hi'' = pre @ ''---'' @ block @ ''---'' @ body)"
  proof clarify
    fix pre block body :: string
    assume "''# Hi'' = pre @ ''---'' @ block @ ''---'' @ body"
    then have "CHR ''-'' \<in> set ''# Hi''" by (simp only: set_append) simp
    then show False by simp
  qed
  have b: "\<not> (\<exists>pre block body. ''---\<newline>title: Home'' = pre @ ''---'' @ block @ ''---'' @ body)"
  proof clarify
    fix pre block body :: string
    assume "''---\<newline>title: Home'' = pre @ ''---'' @ block @ ''---'' @ body"
    then have "length (filter (\<lambda>c. c = CHR ''-'') ''---\<newline>title: Home'')
             = length (filter (\<lambda>c. c = CHR ''-'') (pre @ ''---'' @ block @ ''---'' @ body))"
      by (rule arg_cong)
    then show False by simp
  qed
  have 1: "parse_frontmatter (\<lambda>s. Inl YAMLError) ''# Hi'' = Inr (YNull, ''# Hi'')"
    by (rule iffD2 [OF parse_frontmatter_missing_delimiter a])
  have 2: "parse_frontmatter (\<lambda>s. Inl YAMLError) ''---\<newline>title: Home''
           = Inr (YNull, ''---\<newline>title: Home'')"
    by (rule iffD2 [OF parse_frontmatter_missing_delimiter b])
  from 1 2 show ?thesis by (rule conjI)
qed

section \<open>Properties of the asset path rewriter\<close>

text \<open>Every match that \<open>finditer\<close> reports lies in the string where it says.\<close>

lemma match_attr_Some:
  assumes "match_attr a s = Some (attr, v, off)"
  shows "v \<noteq> [] \<and> take (length v) (drop off s) = v \<and> off + length v < length s"
proof -
  from assms have v: "v = takeWhile (\<lambda>c. c \<noteq> CHR 0x22) (drop off s)"
    and ne: "v \<noteq> []" and lt: "length v < length (drop off s)"
    by (auto simp: match_attr_def Let_def split: if_splits)
  have "take (length v) (drop off s) = v"
    unfolding v by (rule takeWhile_eq_take [symmetric])
  with ne lt show ?thesis by auto
qed

lemma match_here_Some:
  assumes "match_here s = Some (attr, v, off)"
  shows "v \<noteq> [] \<and> take (length v) (drop off s) = v \<and> off + length v < length s"
  using assms match_attr_Some
  by (auto simp: match_here_def split: option.splits)

lemma finditer_from_sound:
  "(attr, v, s, e) \<in> set (finditer_from i t) \<Longrightarrow>
   i \<le> s \<and> e = s + length v \<and> take (length v) (drop (s - i) t) = v
   \<and> s - i + length v < length t"
proof (induction i t rule: finditer_from.induct)
  case (1 i t)
  show ?case
  proof (cases "t = []")
    case True
    with "1.prems" show ?thesis by simp
  next
    case ne: False
    show ?thesis
    proof (cases "match_here t")
      case None
      with ne "1.prems" have "(attr, v, s, e) \<in> set (finditer_from (Suc i) (tl t))" by simp
      from "1.IH"(1) [OF ne None this]
      have le: "Suc i \<le> s" and e: "e = s + length v"
        and tk: "take (length v) (drop (s - Suc i) (tl t)) = v"
        and lt: "s - Suc i + length v < length (tl t)" by auto
      from le have "s - i = Suc (s - Suc i)" by simp
      then have "drop (s - i) t = drop (s - Suc i) (tl t)" by (simp add: drop_Suc)
      with le e tk lt show ?thesis by auto
    next
      case (Some m)
      obtain a' v' off where m: "m = (a', v', off)" by (cases m) auto
      from Some m match_here_Some [of t a' v' off]
      have h: "v' \<noteq> []" "take (length v') (drop off t) = v'" "off + length v' < length t" by auto
      from ne Some m "1.prems"
      consider (head) "(attr, v, s, e) = (a', v', i + off, i + off + length v')"
        | (rest) "(attr, v, s, e) \<in> set (finditer_from (i + off + length v' + 1)
                     (drop (off + length v' + 1) t))"
        by auto
      then show ?thesis
      proof cases
        case head
        with h show ?thesis by auto
      next
        case rest
        from "1.IH"(2) [OF ne Some m [symmetric] refl rest]
        have le: "i + off + length v' + 1 \<le> s" and e: "e = s + length v"
          and tk: "take (length v) (drop (s - (i + off + length v' + 1))
                     (drop (off + length v' + 1) t)) = v"
          and lt: "s - (i + off + length v' + 1) + length v < length (drop (off + length v' + 1) t)"
          by auto
        from le have "off + length v' + 1 + (s - (i + off + length v' + 1)) = s - i" by simp
        then have "drop (s - (i + off + length v' + 1)) (drop (off + length v' + 1) t)
                   = drop (s - i) t" by (simp only: drop_drop add.commute)
        with le e tk lt show ?thesis by auto
      qed
    qed
  qed
qed

text \<open>
  A template with one reference, a relative one: its value is replaced by the path to the
  template directory followed by the value, and the rest of the template stays.
\<close>

lemma patch_referenced_files_single_match:
  assumes one: "finditer final_html = [(attr, file, s, e)]"
    and rel: "\<not> startswith file ''http''" "\<not> startswith file ''#''"
  shows "final_html = take s final_html @ file @ drop e final_html
         \<and> fst (patch_referenced_files final_html template_file markdown_file)
           = take s final_html @ (markdown_to_root markdown_file @ ''/'' @ file) @ drop e final_html"
proof -
  from one have "(attr, file, s, e) \<in> set (finditer_from 0 final_html)"
    by (simp add: finditer_def)
  from finditer_from_sound [OF this]
  have e: "e = s + length file" and tk: "take (length file) (drop s final_html) = file" by auto
  have "drop s final_html = take (length file) (drop s final_html)
          @ drop (length file) (drop s final_html)"
    by (rule append_take_drop_id [symmetric])
  also have "\<dots> = file @ drop e final_html"
    unfolding tk e by (simp add: add.commute)
  finally have "take s final_html @ drop s final_html = take s final_html @ file @ drop e final_html"
    by (rule arg_cong)
  then have split: "final_html = take s final_html @ file @ drop e final_html"
    by (simp only: append_take_drop_id)
  have "fst (patch_referenced_files final_html template_file markdown_file)
        = take s final_html @ (markdown_to_root markdown_file @ ''/'' @ file) @ drop e final_html"
    using rel by (simp add: patch_referenced_files_def one patch_match_def Let_def)
  with split show ?thesis by blast
qed

text \<open>The example of a document three levels deep: two parent traversals, and the absolute
  and the fragment reference untouched.\<close>

lemma patch_referenced_files_deep_document:
  \<open>fst (patch_referenced_files ''<a href="https://x.com"><a href="#frag"><img src="style.css">''
          template_file (parse_path ''site/a/b/page.md''))
     = ''<a href="https://x.com"><a href="#frag"><img src="../../_templates/style.css">''\<close>
  by code_simp

text \<open>The number of parent traversals is the number of components of the document's path
  less two; that is its depth below the input root less one when the input root is a
  relative path of one component.\<close>

lemma markdown_to_root_count:
  "markdown_to_root markdown_file =
     concat (replicate (length (parts markdown_file) - 2) ''../'') @ ''_templates''"
  by (simp add: markdown_to_root_def)

lemma markdown_to_root_single_component_root:
  assumes "anchor input_root = []" and "length (tail input_root) = 1"
    and "relative_to markdown_file input_root = Inr rel"
  shows "markdown_to_root markdown_file =
           concat (replicate (length (parts rel) - 1) ''../'') @ ''_templates''"
  using assms
  by (auto simp: markdown_to_root_def relative_to_def is_relative_to_def parts_def prefix_def
      split: if_splits)

text \<open>
  Claim C2 fails on the code when a template holds two relative references: the matches
  are found in the template as passed in, but each replacement is made at those offsets in
  the string already lengthened by the earlier replacements. The second reference is left
  as it was and its replacement is written over the text before it.
\<close>

theorem patch_referenced_files_two_attributes:
  \<open>fst (patch_referenced_files ''<link href="a.css"><img src="b.png">'' template_file
          (parse_path ''site/page.md''))
     = ''<link href="_templates/a.css"_templates/b.png src="b.png">''
   \<and> fst (patch_referenced_files ''<link href="a.css"><img src="b.png">'' template_file
          (parse_path ''site/page.md''))
     \<noteq> ''<link href="_templates/a.css"><img src="_templates/b.png">''\<close>
  by code_simp

text \<open>
  Claim C4 fails on the code when the input root has two components: the document
  \<^verbatim>\<open>my/site/page.md\<close> lies one level below the root \<^verbatim>\<open>my/site\<close>, so no parent
  traversal is needed, and the rewriter prefixes one, counted from all the components of
  the document's path.
\<close>

theorem patch_referenced_files_nested_root:
  \<open>fst (patch_referenced_files ''<img src="style.css">'' template_file
          (parse_path ''my/site/page.md''))
     = ''<img src="../_templates/style.css">''
   \<and> relative_to (parse_path ''my/site/page.md'') (parse_path ''my/site'')
     = Inr (parse_path ''page.md'')
   \<and> length (parts (parse_path ''page.md'')) - 1 = 0\<close>
  by code_simp

section \<open>Properties of the page renderer\<close>

text \<open>The template name of a mapping is the trimmed \<^verbatim>\<open>template\<close> value, or \<^verbatim>\<open>default\<close>
  without that key; without a mapping there is none.\<close>

lemma template_name_of_mapping:
  "template_name_of (YMap m) =
     (case map_of m ''template'' of
        None \<Rightarrow> Inr ''default''
      | Some (YStr s) \<Rightarrow> Inr (strip s)
      | Some _ \<Rightarrow> Inl AttributeError)"
  by (simp add: template_name_of_def dict_get_def bind_result_def value_strip_def strip_def is_space_def
      split: option.splits yaml.splits)

lemma template_name_of_absent: "template_name_of YNull = Inl AttributeError"
  by (simp add: template_name_of_def dict_get_def bind_result_def)

lemma exists_print: "exists (print line w) p = exists w p"
  by (simp add: exists_def is_dir_def is_file_def print_def)

text \<open>
  Claim C8. When the document can be read, its output path and its template name are
  found, and the template file of that name does not exist, \<^verbatim>\<open>process_markdown\<close> ends
  with the \<open>AssertionError\<close> that names the template file; the files and directories are as
  before, and the only line printed is the one that announces the document.
\<close>

theorem process_markdown_missing_template:
  assumes opened: "read_text w file = Inr content"
    and target: "output_path file input_root output_root = Inr output_file"
    and parsed: "parse_frontmatter (safe_load env) content = Inr (frontmatter, body)"
    and named: "template_name_of frontmatter = Inr template_name"
    and missing: "\<not> exists w (template_file_of input_root template_name)"
  shows "\<exists>w'. process_markdown env file input_root output_root w =
           Some (Some (AssertionError (''template ''
                   @ path_str (template_file_of input_root template_name)
                   @ '' does not exist'')), w')
         \<and> files w' = files w \<and> dirs w' = dirs w
         \<and> stdout w' = stdout w @ [''processing '' @ path_str file @ '' -> ''
                                      @ path_str output_file]"
proof -
  define w1 where
    "w1 = print (''processing '' @ path_str file @ '' -> '' @ path_str output_file) w"
  have "\<not> exists w1 (template_file_of input_root template_name)"
    using missing by (simp add: w1_def exists_print)
  then have "process_markdown env file input_root output_root w =
      Some (Some (AssertionError (''template ''
              @ path_str (template_file_of input_root template_name)
              @ '' does not exist'')), w1)"
    by (simp add: process_markdown_def opened target parsed named Let_def w1_def)
  moreover have "files w1 = files w" "dirs w1 = dirs w"
    "stdout w1 = stdout w @ [''processing '' @ path_str file @ '' -> '' @ path_str output_file]"
    by (simp_all add: w1_def print_def)
  ultimately show ?thesis by blast
qed

text \<open>A document that asks for the template \<^verbatim>\<open>fancy\<close> in a site that has the default
  template only.\<close>

theorem process_markdown_missing_template_witness:
  "\<exists>w'. process_markdown example_externals (parse_path ''site/post.md'') (parse_path ''site'')
           (parse_path ''out'') site_with_unknown_template
         = Some (Some (AssertionError ''template site/_templates/fancy.html does not exist''), w')
       \<and> files w' = files site_with_unknown_template
       \<and> dirs w' = dirs site_with_unknown_template
       \<and> stdout w' = [''processing site/post.md -> out/post.html'']"
proof -
  have opened: "read_text site_with_unknown_template (parse_path ''site/post.md'')
                = Inr ''---\<newline>template: fancy \<newline>---\<newline># Post''"
    by code_simp
  have target: "output_path (parse_path ''site/post.md'') (parse_path ''site'') (parse_path ''out'')
                = Inr (parse_path ''out/post.html'')"
    by code_simp
  have parsed: "parse_frontmatter (safe_load example_externals)
                  ''---\<newline>template: fancy \<newline>---\<newline># Post''
                = Inr (YMap [(''template'', YStr ''fancy '')], ''\<newline># Post'')"
    by code_simp
  have named: "template_name_of (YMap [(''template'', YStr ''fancy '')]) = Inr ''fancy''"
    by code_simp
  have missing: "\<not> exists site_with_unknown_template (template_file_of (parse_path ''site'') ''fancy'')"
    by code_simp
  have msg: "''template '' @ path_str (template_file_of (parse_path ''site'') ''fancy'')
             @ '' does not exist'' = ''template site/_templates/fancy.html does not exist''"
    by code_simp
  have line: "stdout site_with_unknown_template
              @ [''processing '' @ path_str (parse_path ''site/post.md'') @ '' -> ''
                 @ path_str (parse_path ''out/post.html'')]
              = [''processing site/post.md -> out/post.html'']"
    by code_simp
  from process_markdown_missing_template [OF opened target parsed named missing]
  show ?thesis unfolding msg line .
qed

text \<open>
  Claim C3 fails on the code for a document without a frontmatter block:
  \<^verbatim>\<open>parse_frontmatter\<close> returns \<^verbatim>\<open>None\<close> for the frontmatter, and the lookup of the
  template name on it raises \<open>AttributeError\<close>, whatever the libraries do. Nothing is
  written.
\<close>

theorem process_markdown_without_frontmatter:
  "process_markdown env (parse_path ''site/index.md'') (parse_path ''site'') (parse_path ''out'')
     site_without_frontmatter
   = Some (Some AttributeError,
           site_without_frontmatter\<lparr>stdout := [''processing site/index.md -> out/index.html'']\<rparr>)"
  by code_simp

section \<open>Properties of the site walker\<close>

text \<open>
  The loop over the generator and the loop over the list of the files it yields are the
  same loop when the body leaves the names of the files and the directories as they are:
  then every scan finds what it would have found at the start.
\<close>

lemma and_then_assoc: "and_then (and_then r f) g = and_then r (\<lambda>w. and_then (f w) g)"
  by (auto simp: and_then_def split: option.splits prod.splits)

lemma and_then_cong_reached:
  assumes "\<And>w. r = Some (None, w) \<Longrightarrow> f w = g w"
  shows "and_then r f = and_then r g"
  using assms by (auto simp: and_then_def split: option.splits prod.splits)

lemma for_each_append:
  "for_each body (xs @ ys) w = and_then (for_each body xs w) (for_each body ys)"
proof (induction xs arbitrary: w)
  case Nil
  show ?case by (simp add: and_then_def)
next
  case (Cons x xs)
  have "for_each body (xs @ ys) = (\<lambda>w. and_then (for_each body xs w) (for_each body ys))"
    by (rule ext) (rule Cons.IH)
  then show ?case by (simp add: and_then_assoc)
qed

lemma for_each_keeps_tree:
  assumes keep: "\<And>x w e w'. body x w = Some (e, w') \<Longrightarrow>
                   map fst (files w') = map fst (files w) \<and> dirs w' = dirs w"
    and run: "for_each body xs w = Some (e, w')"
  shows "map fst (files w') = map fst (files w) \<and> dirs w' = dirs w"
  using run
proof (induction xs arbitrary: w)
  case Nil
  then show ?case by simp
next
  case (Cons x xs)
  show ?case
  proof (cases "body x w")
    case None
    with Cons.prems show ?thesis by (simp add: and_then_def)
  next
    case (Some r)
    obtain e1 w1 where r: "r = (e1, w1)" by (cases r)
    from keep [of x w e1 w1] Some r
    have k1: "map fst (files w1) = map fst (files w) \<and> dirs w1 = dirs w" by simp
    show ?thesis
    proof (cases e1)
      case None
      with Cons.prems Some r have "for_each body xs w1 = Some (e, w')" by (simp add: and_then_def)
      from Cons.IH [OF this] k1 show ?thesis by simp
    next
      case (Some err)
      with Cons.prems \<open>body x w = Some r\<close> r have "w' = w1" by (simp add: and_then_def)
      with k1 show ?thesis by simp
    qed
  qed
qed

lemma scan_same_tree:
  assumes "map fst (files w') = map fst (files w) \<and> dirs w' = dirs w"
  shows "scan_files w' d = scan_files w d" "scan_dirs w' d = scan_dirs w d"
    "is_dir w' d = is_dir w d"
  using assms by (simp_all add: scan_files_def scan_dirs_def is_dir_def)

lemma for_walk_dir_Nil: "for_walk_dir body extensions [] w = Some (None, w)"
  by (subst for_walk_dir.simps) simp

lemma for_walk_dir_Cons:
  "for_walk_dir body extensions (topdir # rest) w =
     (if \<not> is_dir w topdir then for_walk_dir body extensions rest w
      else and_then (for_each body (yield_files topdir (scan_files w topdir) extensions) w)
             (for_walk_dir body extensions (scan_dirs w topdir @ rest)))"
  by (subst for_walk_dir.simps) (simp add: and_then_def split: option.splits prod.splits)


lemma concat_concat_map:
  "concat (concat (map (\<lambda>x. map f (g x)) xs)) = concat (map (\<lambda>x. concat (map f (g x))) xs)"
  by (induction xs) simp_all

lemma os_walk_from_files:
  "concat (map (\<lambda>(root, fs). yield_files root fs extensions) (os_walk_from w topdir))
   = yield_files topdir (scan_files w topdir) extensions
     @ concat (map (\<lambda>d. concat (map (\<lambda>(root, fs). yield_files root fs extensions)
                                   (os_walk_from w d)))
                 (scan_dirs w topdir))"
  by (subst os_walk_from.simps) (simp add: map_concat comp_def concat_concat_map)

lemma for_walk_dir_from:
  assumes keep: "\<And>x w e w'. body x w = Some (e, w') \<Longrightarrow>
                   map fst (files w') = map fst (files w) \<and> dirs w' = dirs w"
  shows "map fst (files w') = map fst (files w) \<and> dirs w' = dirs w \<Longrightarrow> is_dir w topdir \<Longrightarrow>
         for_walk_dir body extensions (topdir # rest) w'
         = and_then
             (for_each body
                (concat (map (\<lambda>(root, fs). yield_files root fs extensions) (os_walk_from w topdir)))
                w')
             (for_walk_dir body extensions rest)"
proof (induction w topdir arbitrary: w' rest rule: os_walk_from.induct)
  case (1 w topdir)
  let ?flat = "\<lambda>d. concat (map (\<lambda>(root, fs). yield_files root fs extensions) (os_walk_from w d))"
  have below: "for_walk_dir body extensions (ds @ rest) w2
               = and_then (for_each body (concat (map ?flat ds)) w2)
                   (for_walk_dir body extensions rest)"
    if "set ds \<subseteq> set (scan_dirs w topdir)"
      and "map fst (files w2) = map fst (files w) \<and> dirs w2 = dirs w" for ds w2
    using that
  proof (induction ds arbitrary: w2)
    case Nil
    show ?case by (simp add: and_then_def)
  next
    case (Cons d ds)
    from Cons.prems(1) have d: "d \<in> set (scan_dirs w topdir)" and ds: "set ds \<subseteq> set (scan_dirs w topdir)"
      by simp_all
    from d have "is_dir w d" by (simp add: scan_dirs_def is_dir_def)
    from "1.IH" [OF d Cons.prems(2) this, of "ds @ rest"]
    have "for_walk_dir body extensions ((d # ds) @ rest) w2
          = and_then (for_each body (?flat d) w2) (for_walk_dir body extensions (ds @ rest))"
      by simp
    also have "\<dots> = and_then (for_each body (?flat d) w2)
                     (\<lambda>w3. and_then (for_each body (concat (map ?flat ds)) w3)
                             (for_walk_dir body extensions rest))"
    proof (rule and_then_cong_reached)
      fix w3 assume "for_each body (?flat d) w2 = Some (None, w3)"
      from for_each_keeps_tree [of body, OF keep this] Cons.prems(2)
      have "map fst (files w3) = map fst (files w) \<and> dirs w3 = dirs w" by simp
      from Cons.IH [OF ds this]
      show "for_walk_dir body extensions (ds @ rest) w3
            = and_then (for_each body (concat (map ?flat ds)) w3)
                (for_walk_dir body extensions rest)" .
    qed
    also have "\<dots> = and_then (for_each body (concat (map ?flat (d # ds))) w2)
                     (for_walk_dir body extensions rest)"
      by (simp add: for_each_append and_then_assoc)
    finally show ?case .
  qed
  from scan_same_tree [OF "1.prems"(1)] "1.prems"(2)
  have "for_walk_dir body extensions (topdir # rest) w'
        = and_then (for_each body (yield_files topdir (scan_files w topdir) extensions) w')
            (for_walk_dir body extensions (scan_dirs w topdir @ rest))"
    by (simp add: for_walk_dir_Cons)
  also have "\<dots> = and_then (for_each body (yield_files topdir (scan_files w topdir) extensions) w')
                   (\<lambda>w2. and_then (for_each body (concat (map ?flat (scan_dirs w topdir))) w2)
                           (for_walk_dir body extensions rest))"
  proof (rule and_then_cong_reached)
    fix w2 assume "for_each body (yield_files topdir (scan_files w topdir) extensions) w'
                   = Some (None, w2)"
    from for_each_keeps_tree [of body, OF keep this] "1.prems"(1)
    have "map fst (files w2) = map fst (files w) \<and> dirs w2 = dirs w" by simp
    from below [OF subset_refl this]
    show "for_walk_dir body extensions (scan_dirs w topdir @ rest) w2
          = and_then (for_each body (concat (map ?flat (scan_dirs w topdir))) w2)
              (for_walk_dir body extensions rest)" .
  qed
  also have "\<dots> = and_then (for_each body (?flat topdir) w') (for_walk_dir body extensions rest)"
    by (subst os_walk_from_files) (simp add: for_each_append and_then_assoc)
  finally show ?case .
qed

lemma for_walk_dir_unchanged_tree:
  assumes keep: "\<And>x w e w'. body x w = Some (e, w') \<Longrightarrow>
                   map fst (files w') = map fst (files w) \<and> dirs w' = dirs w"
  shows "for_walk_dir body extensions [dir] w = for_each body (walk_dir w dir extensions) w"
proof (cases "is_dir w dir")
  case False
  then show ?thesis
    by (simp add: for_walk_dir_Cons for_walk_dir_Nil walk_dir_def os_walk_def)
next
  case True
  have "and_then r (for_walk_dir body extensions []) = r" for r
    by (auto simp: and_then_def for_walk_dir_Nil split: option.splits prod.splits)
  with for_walk_dir_from [of body w w dir extensions "[]", OF keep] True
  show ?thesis by (simp add: walk_dir_def os_walk_def)
qed

text \<open>A body that only prints walks the tree in the order of \<open>walk_dir\<close>.\<close>

lemma for_walk_dir_print:
  "for_walk_dir (\<lambda>file w. Some (None, print (path_str file) w)) extensions [dir] w
   = for_each (\<lambda>file w. Some (None, print (path_str file) w)) (walk_dir w dir extensions) w"
  by (rule for_walk_dir_unchanged_tree) (auto simp: print_def)

text \<open>
  Claim C5 fails on the code for a markdown file in the template directory: the loop over
  the markdown files has no test for \<^verbatim>\<open>_templates\<close>, so \<^verbatim>\<open>site/_templates/notes.md\<close> is
  among the files it renders, and the page \<^verbatim>\<open>out/_templates/notes.html\<close> is written.
\<close>

theorem process_all_renders_template_markdown:
  \<open>walk_dir site_with_template_notes (parse_path ''site'') [''.md'']
     = [parse_path ''site/index.md'', parse_path ''site/_templates/notes.md'']
   \<and> map_option (\<lambda>r. (fst r, stdout (snd r),
                       map_of (files (snd r)) (parse_path ''out/_templates/notes.html'')))
       (process_all example_externals (parse_path ''site'') (parse_path ''out'')
          site_with_template_notes)
     = Some (None,
             [''processing site/index.md -> out/index.html'',
              '' - asset _templates/style.css'',
              ''processing site/_templates/notes.md -> out/_templates/notes.html'',
              '' - asset ../_templates/style.css''],
             Some (''<title>Notes</title><link href="../_templates/style.css">''
                   @ ''<nav class="breadcrumbs"><a href="../..">root</a> / ''
                   @ ''<a href="..">_templates</a> / <a href="">notes</a></nav>''
                   @ ''<p>\<newline>todo</p>''))\<close>
  by code_simp

end
